theory Spec2Isabelle
  imports Complex_Main
begin

text \<open>
  The event server reads rows from a sheet, classifies each one with a remote service and
  keeps the result in a cache. This theory embeds its classification pipeline: the date
  normalizer \<open>parseCampusDate\<close>, the heuristic classifier \<open>fallbackClassification\<close>, the
  remote client \<open>classifyEvent\<close>, the orchestrator \<open>classifyWithRetry\<close> and the route
  \<open>POST /api/refresh\<close>. The clock, the remote service, the sheet and the environment are
  parameters; an exception is a result \<open>Inl\<close>.
\<close>

section \<open>JavaScript values used by the server\<close>

text \<open>
  Strings are lists of 8-bit characters; the model covers ASCII text. A JavaScript number
  that the date code handles is either \<open>NaN\<close> or an integer; integers are unbounded
  here, which agrees with the double arithmetic of the source on every value that can
  decide whether a date is inside the range of \<open>Date\<close>.
\<close>

datatype jsnum = NaN | Num int

text \<open>
  A thrown value, taken to be an object: the fields the handlers read from it
  (\<open>e?.status\<close>, \<open>e?.response?.status\<close>, \<open>e.message\<close>). An absent message is the empty
  string; both are falsy and both differ from \<open>"bad_json"\<close>.
\<close>

record js_error =
  status :: "int option"
  response_status :: "int option"
  message :: string

text \<open>A JavaScript value as far as the server handles one: \<open>undefined\<close> or a JSON value.\<close>

datatype jsval =
    Undefined
  | JNull
  | JBool bool
  | JNumber real
  | JString string
  | JArray "jsval list"
  | JObject "(string \<times> jsval) list"

subsection \<open>String primitives\<close>

text \<open>
  White space as \<open>trim\<close>, the class \<open>\s\<close> and \<open>parseInt\<close> see it among 8-bit characters:
  tab, line feed, vertical tab, form feed, carriage return, space and no-break space.
\<close>

definition is_space :: "char \<Rightarrow> bool" where
  "is_space c \<longleftrightarrow>
     c \<in> set [CHR 0x09, CHR 0x0A, CHR 0x0B, CHR 0x0C, CHR 0x0D, CHR '' '', CHR 0xA0]"

definition is_digit :: "char \<Rightarrow> bool" where
  "is_digit c \<longleftrightarrow> c \<in> set ''0123456789''"

definition is_lower_alnum :: "char \<Rightarrow> bool" where
  "is_lower_alnum c \<longleftrightarrow> c \<in> set ''abcdefghijklmnopqrstuvwxyz0123456789''"

definition lower_char :: "char \<Rightarrow> char" where
  "lower_char c =
     (case map_of (zip ''ABCDEFGHIJKLMNOPQRSTUVWXYZ'' ''abcdefghijklmnopqrstuvwxyz'') c of
        Some l \<Rightarrow> l
      | None \<Rightarrow> c)"

text \<open>\<open>String.prototype.toLowerCase\<close>, \<open>trim\<close>, \<open>replace(/\s+/g, " ")\<close>, \<open>split(" ")\<close>
  and \<open>join(" ")\<close>.\<close>

definition toLowerCase :: "string \<Rightarrow> string" where
  "toLowerCase s = map lower_char s"

definition trim :: "string \<Rightarrow> string" where
  "trim s = rev (dropWhile is_space (rev (dropWhile is_space s)))"

function collapse_ws :: "string \<Rightarrow> string" where
  "collapse_ws [] = []"
| "collapse_ws (c # cs) =
     (if is_space c then CHR '' '' # collapse_ws (dropWhile is_space cs)
      else c # collapse_ws cs)"
  by pat_completeness auto
termination
proof (relation "measure length")
  show "wf (measure length)" by simp
next
  fix c :: char and cs :: string
  have "length (dropWhile is_space cs) \<le> length cs"
    by (rule length_dropWhile_le)
  then show "(dropWhile is_space cs, c # cs) \<in> measure length" by simp
next
  fix c :: char and cs :: string
  show "(cs, c # cs) \<in> measure length" by simp
qed

fun split_on :: "char \<Rightarrow> string \<Rightarrow> string list" where
  "split_on sep [] = [[]]"
| "split_on sep (c # cs) =
     (if c = sep then [] # split_on sep cs
      else (case split_on sep cs of
              p # ps \<Rightarrow> (c # p) # ps
            | [] \<Rightarrow> [[c]]))"

fun join_sp :: "string list \<Rightarrow> string" where
  "join_sp [] = []"
| "join_sp [p] = p"
| "join_sp (p # q # ps) = p @ CHR '' '' # join_sp (q # ps)"

text \<open>\<open>xs[i]\<close>: \<open>None\<close> is \<open>undefined\<close>, the value of a read past the end.\<close>

definition js_index :: "'a list \<Rightarrow> nat \<Rightarrow> 'a option" where
  "js_index xs i = (if i < length xs then Some (xs ! i) else None)"

definition digit_val :: "char \<Rightarrow> int" where
  "digit_val c = of_char c - 48"

definition digits_value :: "string \<Rightarrow> int" where
  "digits_value ds = foldl (\<lambda>a c. 10 * a + digit_val c) 0 ds"

text \<open>
  \<open>parseInt(x, 10)\<close>: leading white space, an optional sign, then the longest run of
  decimal digits; \<open>NaN\<close> when there is no digit. An \<open>undefined\<close> argument is converted to
  the string \<open>"undefined"\<close>, which has no digit.
\<close>

definition parseInt :: "string option \<Rightarrow> jsnum" where
  "parseInt x =
     (case x of
        None \<Rightarrow> NaN
      | Some s \<Rightarrow>
          (let t = dropWhile is_space s;
               neg = (t \<noteq> [] \<and> hd t = CHR ''-'');
               u = (if t \<noteq> [] \<and> (hd t = CHR ''-'' \<or> hd t = CHR ''+'') then tl t else t);
               ds = takeWhile is_digit u
           in if ds = [] then NaN
              else Num (if neg then - digits_value ds else digits_value ds)))"

text \<open>\<open>x || 1\<close> on a number: \<open>NaN\<close> and zero are falsy.\<close>

definition or_one :: "jsnum \<Rightarrow> jsnum" where
  "or_one x = (case x of NaN \<Rightarrow> Num 1 | Num k \<Rightarrow> if k = 0 then Num 1 else Num k)"

definition isNaN :: "jsnum \<Rightarrow> bool" where
  "isNaN x \<longleftrightarrow> x = NaN"

section \<open>Date normalizer\<close>

text \<open>
  The clock of the process: the value of \<open>new Date().getFullYear()\<close>, the time value (in
  milliseconds since the epoch) of the current instant, and the offset of local time from
  UTC at a given local time.
\<close>

record clock =
  year_now :: int
  now_ms :: int
  tz_offset :: "int \<Rightarrow> int"

text \<open>
  A \<open>Date\<close> as the source constructs it: \<open>new Date()\<close>, or
  \<open>new Date(y, m, d, hh, mm, ss)\<close> with local-time fields.
\<close>

datatype jsdate = New_Date_now | New_Date jsnum jsnum jsnum jsnum jsnum jsnum

text \<open>
  The value found under a key of the object literal \<open>months\<close>. The literal inherits from
  \<open>Object.prototype\<close>, so the lower-case keys \<open>constructor\<close> and \<open>__proto__\<close> are found
  too, with a value that is an object, not a number.
\<close>

datatype table_entry = MonthIndex int | Inherited

definition months :: "string \<Rightarrow> table_entry option" where
  "months k =
     (if k = ''jan'' then Some (MonthIndex 0)
      else if k = ''feb'' then Some (MonthIndex 1)
      else if k = ''mar'' then Some (MonthIndex 2)
      else if k = ''apr'' then Some (MonthIndex 3)
      else if k = ''may'' then Some (MonthIndex 4)
      else if k = ''jun'' then Some (MonthIndex 5)
      else if k = ''jul'' then Some (MonthIndex 6)
      else if k = ''aug'' then Some (MonthIndex 7)
      else if k = ''sep'' then Some (MonthIndex 8)
      else if k = ''sept'' then Some (MonthIndex 8)
      else if k = ''oct'' then Some (MonthIndex 9)
      else if k = ''nov'' then Some (MonthIndex 10)
      else if k = ''dec'' then Some (MonthIndex 11)
      else if k = ''constructor'' \<or> k = ''__proto__'' then Some Inherited
      else None)"

text \<open>\<open>ToNumber\<close> of a value read from the table, as the \<open>Date\<close> constructor applies it.\<close>

definition entry_number :: "table_entry \<Rightarrow> jsnum" where
  "entry_number e = (case e of MonthIndex k \<Rightarrow> Num k | Inherited \<Rightarrow> NaN)"

text \<open>
  \<open>timeRaw.match(/^(\d{1,2})(?::(\d{2}))?\s*(am|pm)?$/)\<close>: the three capture groups, or
  \<open>None\<close> when the pattern does not match. The pattern leaves no choice to backtracking:
  a digit, a colon or a space that a greedy part gives back cannot be matched by what
  follows it.
\<close>

definition match_time :: "string \<Rightarrow> (string \<times> string option \<times> string option) option" where
  "match_time t =
     (let g1 = take 2 (takeWhile is_digit t);
          r1 = drop (length g1) t;
          colon = (length r1 \<ge> 3 \<and> r1 ! 0 = CHR '':'' \<and> is_digit (r1 ! 1) \<and> is_digit (r1 ! 2));
          g2 = (if colon then Some (take 2 (drop 1 r1)) else None);
          r2 = (if colon then drop 3 r1 else r1);
          r3 = dropWhile is_space r2
      in if g1 = [] then None
         else if r3 = ''am'' \<or> r3 = ''pm'' then Some (g1, g2, Some r3)
         else if r3 = [] then Some (g1, g2, None)
         else None)"

text \<open>Lines 84 to 88: the hour and the minute from a match.\<close>

definition time_of_match :: "string \<times> string option \<times> string option \<Rightarrow> jsnum \<times> jsnum" where
  "time_of_match m2 =
     (case m2 of (g1, g2, mer) \<Rightarrow>
        (let hh = parseInt (Some g1);
             mm = (case g2 of Some g \<Rightarrow> parseInt (Some g) | None \<Rightarrow> Num 0);
             hh = (case hh of
                     Num h \<Rightarrow> if mer = Some ''pm'' \<and> h < 12 then Num (h + 12) else hh
                   | NaN \<Rightarrow> hh);
             hh = (if mer = Some ''am'' \<and> hh = Num 12 then Num 0 else hh)
         in (hh, mm)))"

definition parseCampusDate :: "clock \<Rightarrow> string \<Rightarrow> jsdate" where
  "parseCampusDate clk s =
     (if s = [] then New_Date_now
      else
        (let str = collapse_ws (toLowerCase (trim s));
             parts = split_on CHR '' '' str;
             y = year_now clk;
             m = (case js_index parts 0 of Some k \<Rightarrow> months k | None \<Rightarrow> None);
             d = or_one (parseInt (js_index parts 1));
             timeRaw = join_sp (drop 2 parts);
             hm = (if timeRaw \<noteq> []
                   then (case match_time timeRaw of
                           Some m2 \<Rightarrow> time_of_match m2
                         | None \<Rightarrow> (Num 9, Num 0))
                   else (Num 9, Num 0))
         in case m of
              None \<Rightarrow> New_Date_now
            | Some e \<Rightarrow>
                if isNaN d then New_Date_now
                else New_Date (Num y) (entry_number e) d (fst hm) (snd hm) (Num 0)))"

subsection \<open>Time values\<close>

text \<open>
  The arithmetic of ECMA-262 for \<open>new Date(y, m, d, hh, mm, ss)\<close> and for
  \<open>Date.prototype.toISOString\<close>. A time value is a number of milliseconds since the epoch;
  \<open>NaN\<close> is the value of an invalid date.
\<close>

definition msPerDay :: int where
  "msPerDay = 86400000"

definition DayFromYear :: "int \<Rightarrow> int" where
  "DayFromYear y =
     365 * (y - 1970) + (y - 1969) div 4 - (y - 1901) div 100 + (y - 1601) div 400"

definition InLeapYear :: "int \<Rightarrow> bool" where
  "InLeapYear y = (if y mod 100 = 0 then y mod 400 = 0 else y mod 4 = 0)"

definition month_start :: "int \<Rightarrow> int \<Rightarrow> int" where
  "month_start y mn =
     (let leap = (if InLeapYear y then 1 else 0)
      in if mn = 0 then 0
         else if mn = 1 then 31
         else [59, 90, 120, 151, 181, 212, 243, 273, 304, 334] ! nat (mn - 2) + leap)"

definition MakeTime :: "int \<Rightarrow> int \<Rightarrow> int \<Rightarrow> int \<Rightarrow> int" where
  "MakeTime hour minute sec ms = hour * 3600000 + minute * 60000 + sec * 1000 + ms"

definition MakeDay :: "int \<Rightarrow> int \<Rightarrow> int \<Rightarrow> int" where
  "MakeDay year month dt =
     (let ym = year + month div 12;
          mn = month mod 12
      in DayFromYear ym + month_start ym mn + dt - 1)"

definition MakeDate :: "int \<Rightarrow> int \<Rightarrow> int" where
  "MakeDate day tm = day * msPerDay + tm"

definition TimeClip :: "int \<Rightarrow> jsnum" where
  "TimeClip t = (if \<bar>t\<bar> > 8640000000000000 then NaN else Num t)"

fun date_value :: "clock \<Rightarrow> jsdate \<Rightarrow> jsnum" where
  "date_value clk New_Date_now = Num (now_ms clk)"
| "date_value clk (New_Date (Num y) (Num m) (Num d) (Num hh) (Num mm) (Num ss)) =
     (let yr = (if 0 \<le> y \<and> y \<le> 99 then 1900 + y else y);
          t = MakeDate (MakeDay yr m d) (MakeTime hh mm ss 0)
      in TimeClip (t - tz_offset clk t))"
| "date_value clk (New_Date y m d hh mm ss) = NaN"

text \<open>The calendar date of a day number (days since the epoch): year, month 1..12, day.\<close>

definition civil_from_days :: "int \<Rightarrow> int \<times> int \<times> int" where
  "civil_from_days z0 =
     (let z = z0 + 719468;
          era = z div 146097;
          doe = z mod 146097;
          yoe = (doe - doe div 1460 + doe div 36524 - doe div 146096) div 365;
          doy = doe - (365 * yoe + yoe div 4 - yoe div 100);
          mp = (5 * doy + 2) div 153;
          d = doy - (153 * mp + 2) div 5 + 1;
          m = (if mp < 10 then mp + 3 else mp - 9);
          y = yoe + era * 400
      in (if m \<le> 2 then y + 1 else y, m, d))"

fun digits_of :: "nat \<Rightarrow> string" where
  "digits_of n =
     (if n < 10 then [''0123456789'' ! n]
      else digits_of (n div 10) @ [''0123456789'' ! (n mod 10)])"

definition pad :: "nat \<Rightarrow> int \<Rightarrow> string" where
  "pad w k = (let ds = digits_of (nat k) in replicate (w - length ds) CHR ''0'' @ ds)"

definition iso_string :: "int \<Rightarrow> string" where
  "iso_string tv =
     (let day = tv div msPerDay;
          ms = tv mod msPerDay;
          ymd = civil_from_days day;
          y = fst ymd;
          year = (if 0 \<le> y \<and> y \<le> 9999 then pad 4 y
                  else (if y < 0 then CHR ''-'' else CHR ''+'') # pad 6 \<bar>y\<bar>)
      in year @ ''-'' @ pad 2 (fst (snd ymd)) @ ''-'' @ pad 2 (snd (snd ymd)) @ ''T''
         @ pad 2 (ms div 3600000) @ '':'' @ pad 2 (ms mod 3600000 div 60000) @ '':''
         @ pad 2 (ms mod 60000 div 1000) @ ''.'' @ pad 3 (ms mod 1000) @ ''Z'')"

definition range_error :: js_error where
  "range_error = \<lparr>status = None, response_status = None, message = ''Invalid time value''\<rparr>"

text \<open>\<open>toISOString\<close> throws a \<open>RangeError\<close> on an invalid date.\<close>

definition toISOString :: "clock \<Rightarrow> jsdate \<Rightarrow> js_error + string" where
  "toISOString clk dt =
     (case date_value clk dt of
        NaN \<Rightarrow> Inl range_error
      | Num tv \<Rightarrow> Inr (iso_string tv))"

section \<open>Heuristic classifier\<close>

record raw_event =
  title :: string
  date :: string
  time :: string
  location :: string
  org :: string
  description :: string
  url :: string

text \<open>\<open>text.match(/[a-z0-9]+/g) || []\<close>: the maximal runs of lower-case letters and digits.\<close>

function match_words :: "string \<Rightarrow> string list" where
  "match_words [] = []"
| "match_words (c # cs) =
     (if is_lower_alnum c
      then (c # takeWhile is_lower_alnum cs) # match_words (dropWhile is_lower_alnum cs)
      else match_words cs)"
  by pat_completeness auto
termination
proof (relation "measure length")
  show "wf (measure length)" by simp
next
  fix c :: char and cs :: string
  have "length (dropWhile is_lower_alnum cs) \<le> length cs"
    by (rule length_dropWhile_le)
  then show "(dropWhile is_lower_alnum cs, c # cs) \<in> measure length" by simp
next
  fix c :: char and cs :: string
  show "(cs, c # cs) \<in> measure length" by simp
qed

definition event_tokens :: "raw_event \<Rightarrow> string list" where
  "event_tokens ev =
     match_words (toLowerCase (title ev @ '' '' @ description ev @ '' '' @ location ev))"

text \<open>\<open>Array.from(new Set(xs))\<close>: the first occurrence of each element, in order.\<close>

fun dedup :: "'a list \<Rightarrow> 'a list" where
  "dedup [] = []"
| "dedup (x # xs) = x # dedup (removeAll x xs)"

definition fallback_category :: "string list \<Rightarrow> string" where
  "fallback_category tokens =
     (let has = (\<lambda>w. w \<in> set tokens)
      in if has ''workshop'' \<or> has ''tutorial'' \<or> has ''bootcamp'' then ''Workshop''
         else if has ''career'' \<or> has ''recruit'' \<or> has ''internship'' then ''Career''
         else if has ''game'' \<or> has ''party'' \<or> has ''mixer'' \<or> has ''social'' then ''Social''
         else if has ''club'' \<or> has ''org'' \<or> has ''meeting'' then ''Club/Org''
         else if has ''volunteer'' \<or> has ''service'' then ''Volunteer''
         else if has ''lecture'' \<or> has ''seminar'' \<or> has ''talk'' \<or> has ''colloquium''
           then ''Academic''
         else if has ''basketball'' \<or> has ''soccer'' \<or> has ''run'' \<or> has ''tournament''
           then ''Sports''
         else if has ''heritage'' \<or> has ''cultural'' \<or> has ''festival'' \<or> has ''film''
           then ''Cultural''
         else ''Other'')"

definition fallback_audience :: "string list \<Rightarrow> string list" where
  "fallback_audience tokens =
     (let has = (\<lambda>w. w \<in> set tokens)
      in [''Undergrad'']
         @ (if has ''graduate'' \<or> has ''phd'' \<or> has ''ms'' then [''Grad''] else [])
         @ (if has ''alumni'' then [''Alumni''] else [])
         @ (if has ''staff'' then [''Staff''] else [])
         @ (if has ''public'' \<or> has ''community'' then [''Public''] else []))"

definition fallback_location_type :: "string list \<Rightarrow> string" where
  "fallback_location_type tokens =
     (let has = (\<lambda>w. w \<in> set tokens)
      in if has ''zoom'' \<or> has ''virtual'' \<or> has ''online'' then ''Virtual''
         else if has ''hybrid'' then ''Hybrid''
         else if has ''campus'' \<or> has ''hall'' \<or> has ''center'' \<or> has ''theater'' \<or> has ''lab''
           then ''On-campus''
         else ''Off-campus'')"

definition fallback_tags :: "string \<Rightarrow> string list \<Rightarrow> string list" where
  "fallback_tags category tokens =
     (let has = (\<lambda>w. w \<in> set tokens)
      in (if category \<noteq> ''Other'' then [toLowerCase category] else [])
         @ (if has ''free'' then [''free''] else [])
         @ (if has ''food'' \<or> has ''pizza'' then [''food''] else [])
         @ (if has ''resume'' then [''resume''] else [])
         @ (if has ''tech'' \<or> has ''cs'' \<or> has ''gds'' then [''tech''] else []))"

definition fallback_rationale :: string where
  "fallback_rationale = ''Fallback classification used due to API quota or transient errors.''"

text \<open>
  \<open>fallbackClassification\<close>: \<open>Inl\<close> is the exception that leaves the function, thrown by
  \<open>toISOString\<close>; nothing else in the body can throw on a record of strings.
\<close>

definition fallbackClassification :: "clock \<Rightarrow> raw_event \<Rightarrow> js_error + jsval" where
  "fallbackClassification clk ev =
     (let tokens = event_tokens ev;
          category = fallback_category tokens;
          audience = fallback_audience tokens;
          location_type = fallback_location_type tokens
      in case toISOString clk (parseCampusDate clk (date ev)) of
           Inl e \<Rightarrow> Inl e
         | Inr normalized_date \<Rightarrow>
             (let tags = fallback_tags category tokens
              in Inr (JObject
                   [(''category'', JString category),
                    (''tags'', JArray (map JString (take 8 (dedup tags)))),
                    (''audience'', JArray (map JString (take 3 audience))),
                    (''normalized_date'', JString normalized_date),
                    (''location_type'', JString location_type),
                    (''confidence'', JNumber 0.25),
                    (''rationale'', JString fallback_rationale)])))"

section \<open>The classification schema\<close>

text \<open>
  \<open>classificationSchema\<close> as a predicate on values: the object type, no additional
  properties, the seven required properties, the closed sets, the size bounds and the
  numeric range. The \<open>format\<close> keyword of \<open>normalized_date\<close> is an annotation and is not
  part of the predicate.
\<close>

definition schema_categories :: "string list" where
  "schema_categories =
     [''Academic'', ''Career'', ''Social'', ''Cultural'', ''Sports'',
      ''Workshop'', ''Volunteer'', ''Club/Org'', ''Admin/Advising'', ''Other'']"

definition schema_audiences :: "string list" where
  "schema_audiences = [''Undergrad'', ''Grad'', ''Alumni'', ''Staff'', ''Public'']"

definition schema_location_types :: "string list" where
  "schema_location_types = [''On-campus'', ''Off-campus'', ''Virtual'', ''Hybrid'']"

definition schema_required :: "string list" where
  "schema_required =
     [''category'', ''tags'', ''audience'', ''normalized_date'',
      ''location_type'', ''confidence'', ''rationale'']"

definition is_string :: "jsval \<Rightarrow> bool" where
  "is_string v = (case v of JString s \<Rightarrow> True | _ \<Rightarrow> False)"

definition string_in :: "string list \<Rightarrow> jsval \<Rightarrow> bool" where
  "string_in allowed v = (case v of JString s \<Rightarrow> s \<in> set allowed | _ \<Rightarrow> False)"

definition array_of :: "(jsval \<Rightarrow> bool) \<Rightarrow> nat \<Rightarrow> nat \<Rightarrow> jsval \<Rightarrow> bool" where
  "array_of item lo hi v =
     (case v of JArray xs \<Rightarrow> list_all item xs \<and> lo \<le> length xs \<and> length xs \<le> hi
      | _ \<Rightarrow> False)"

definition number_in :: "real \<Rightarrow> real \<Rightarrow> jsval \<Rightarrow> bool" where
  "number_in lo hi v = (case v of JNumber x \<Rightarrow> lo \<le> x \<and> x \<le> hi | _ \<Rightarrow> False)"

definition prop_ok :: "(string \<times> jsval) list \<Rightarrow> string \<Rightarrow> (jsval \<Rightarrow> bool) \<Rightarrow> bool" where
  "prop_ok kvs k P = (case map_of kvs k of Some v \<Rightarrow> P v | None \<Rightarrow> False)"

definition conforms :: "jsval \<Rightarrow> bool" where
  "conforms v =
     (case v of
        JObject kvs \<Rightarrow>
          list_all (\<lambda>k. k \<in> set schema_required) (map fst kvs)
          \<and> prop_ok kvs ''category'' (string_in schema_categories)
          \<and> prop_ok kvs ''tags'' (array_of is_string 0 8)
          \<and> prop_ok kvs ''audience'' (array_of (string_in schema_audiences) 1 3)
          \<and> prop_ok kvs ''normalized_date'' is_string
          \<and> prop_ok kvs ''location_type'' (string_in schema_location_types)
          \<and> prop_ok kvs ''confidence'' (number_in 0 1)
          \<and> prop_ok kvs ''rationale'' is_string
      | _ \<Rightarrow> False)"

section \<open>Remote classifier client\<close>

text \<open>
  What one request to the generation service comes to: the request is rejected with a
  thrown value, or a response arrives, given here by what \<open>JSON.parse\<close> makes of its
  \<open>output_text\<close> (\<open>None\<close> when the text is not JSON). The service is a state machine of any
  state type \<open>'c\<close>; it sees the event, from whose fields the prompt is built.
\<close>

datatype remote_outcome = Rejected js_error | Responded "jsval option"

type_synonym 'c service = "'c \<Rightarrow> raw_event \<Rightarrow> remote_outcome \<times> 'c"

text \<open>
  The state of the process and of what it talks to: the cache, the state of the remote
  service, and a record of the effects (every \<open>sleep(ms)\<close>, the number of requests sent to
  the service, the number of reads of the sheet).
\<close>

record classified_event =
  event :: raw_event
  classification :: jsval

record 'c state =
  cachedEvents :: "classified_event list"
  remote :: 'c
  slept :: "int list"
  requests :: nat
  sheet_reads :: nat

definition bad_json :: js_error where
  "bad_json = \<lparr>status = None, response_status = None, message = ''bad_json''\<rparr>"

definition classifyEvent ::
  "'c service \<Rightarrow> raw_event \<Rightarrow> 'c state \<Rightarrow> (js_error + jsval) \<times> 'c state" where
  "classifyEvent svc ev st =
     (case svc (remote st) ev of
        (resp, c) \<Rightarrow>
          (let st' = st\<lparr>remote := c, requests := requests st + 1\<rparr>
           in case resp of
                Rejected e \<Rightarrow> (Inl e, st')
              | Responded None \<Rightarrow> (Inl bad_json, st')
              | Responded (Some v) \<Rightarrow> (Inr v, st')))"

section \<open>Orchestrator\<close>

definition sleep :: "int \<Rightarrow> 'c state \<Rightarrow> 'c state" where
  "sleep ms st = st\<lparr>slept := slept st @ [ms]\<rparr>"

text \<open>\<open>e?.status || e?.response?.status\<close>: zero and \<open>undefined\<close> are falsy.\<close>

definition error_status :: "js_error \<Rightarrow> int option" where
  "error_status e =
     (case status e of
        Some s \<Rightarrow> if s \<noteq> 0 then Some s else response_status e
      | None \<Rightarrow> response_status e)"

text \<open>
  The loop of \<open>classifyWithRetry\<close> from a given attempt and delay. The result is \<open>Inl\<close> when
  an exception leaves the function; a loop that ends without \<open>return\<close> yields
  \<open>undefined\<close>.
\<close>

function classifyWithRetry_loop ::
  "'c service \<Rightarrow> clock \<Rightarrow> raw_event \<Rightarrow> int \<Rightarrow> int \<Rightarrow> int \<Rightarrow> 'c state
     \<Rightarrow> (js_error + jsval) \<times> 'c state" where
  "classifyWithRetry_loop svc clk ev maxRetries attempt delay st =
     (if attempt \<le> maxRetries then
        (case classifyEvent svc ev st of
           (Inr v, st') \<Rightarrow> (Inr v, st')
         | (Inl e, st') \<Rightarrow>
             (let status = error_status e;
                  is429 = (status = Some 429);
                  is5xx = (case status of Some s \<Rightarrow> s \<ge> 500 \<and> s < 600 | None \<Rightarrow> False)
              in if attempt < maxRetries \<and> (is429 \<or> is5xx \<or> message e = ''bad_json'')
                 then classifyWithRetry_loop svc clk ev maxRetries (attempt + 1) (delay * 2)
                        (sleep delay st')
                 else (fallbackClassification clk ev, st')))
      else (Inr Undefined, st))"
  by pat_completeness auto
termination
  by (relation "measure (\<lambda>(svc, clk, ev, maxRetries, attempt, delay, st).
        nat (maxRetries + 1 - attempt))") simp_all

declare classifyWithRetry_loop.simps [simp del]

definition classifyWithRetry ::
  "'c service \<Rightarrow> clock \<Rightarrow> raw_event \<Rightarrow> int \<Rightarrow> 'c state \<Rightarrow> (js_error + jsval) \<times> 'c state" where
  "classifyWithRetry svc clk ev maxRetries st =
     classifyWithRetry_loop svc clk ev maxRetries 0 1500 st"

section \<open>Refresh route\<close>

text \<open>\<open>row[i] || ""\<close> on a row of string cells.\<close>

definition cell :: "string list \<Rightarrow> nat \<Rightarrow> string" where
  "cell row i = (case js_index row i of Some s \<Rightarrow> s | None \<Rightarrow> [])"

definition rowToEvent :: "string list \<Rightarrow> raw_event" where
  "rowToEvent row =
     \<lparr>title = cell row 0, date = cell row 1, time = [], location = cell row 2,
      org = cell row 3, description = cell row 4, url = cell row 5\<rparr>"

text \<open>\<open>xs.slice(0, n)\<close>: \<open>NaN\<close> counts as zero, a negative end counts from the end.\<close>

definition slice0 :: "'a list \<Rightarrow> jsnum \<Rightarrow> 'a list" where
  "slice0 xs n =
     (case n of
        NaN \<Rightarrow> []
      | Num k \<Rightarrow> if k < 0 then take (nat (int (length xs) + k)) xs else take (nat k) xs)"

text \<open>
  The environment of the route: the two variables it reads, and \<open>Number\<close> on a string,
  which is taken as given.
\<close>

record environment =
  REFRESH_TOKEN :: "string option"
  MAX_EVENTS :: "string option"
  Number_of :: "string \<Rightarrow> jsnum"

record http_response =
  code :: nat
  body :: jsval

text \<open>The \<open>for\<close> loop of the route: one event after the other, results appended.\<close>

fun classify_all ::
  "'c service \<Rightarrow> clock \<Rightarrow> raw_event list \<Rightarrow> classified_event list \<Rightarrow> 'c state
     \<Rightarrow> (js_error + classified_event list) \<times> 'c state" where
  "classify_all svc clk [] results st = (Inr results, st)"
| "classify_all svc clk (ev # evs) results st =
     (case classifyWithRetry svc clk ev 2 st of
        (Inl e, st') \<Rightarrow> (Inl e, st')
      | (Inr cls, st') \<Rightarrow>
          classify_all svc clk evs (results @ [\<lparr>event = ev, classification = cls\<rparr>]) st')"

definition error_response :: "js_error \<Rightarrow> http_response" where
  "error_response e =
     \<lparr>code = 500,
      body = JObject [(''ok'', JBool False),
                      (''error'', JString (if message e \<noteq> [] then message e
                                           else ''unknown_error''))]\<rparr>"

definition unauthorized :: http_response where
  "unauthorized =
     \<lparr>code = 401,
      body = JObject [(''ok'', JBool False), (''error'', JString ''unauthorized'')]\<rparr>"

text \<open>Line 229: \<open>data.values || []\<close>.\<close>

definition sheet_rows :: "string list list option \<Rightarrow> string list list" where
  "sheet_rows values = (case values of Some r \<Rightarrow> r | None \<Rightarrow> [])"

text \<open>
  Line 216: \<open>process.env.REFRESH_TOKEN && req.query.token !== process.env.REFRESH_TOKEN\<close>,
  where \<open>token\<close> is \<open>req.query.token\<close>. An unset variable and the empty string are falsy.
\<close>

definition token_mismatch :: "environment \<Rightarrow> string option \<Rightarrow> bool" where
  "token_mismatch env token =
     (case REFRESH_TOKEN env of
        Some secret \<Rightarrow> secret \<noteq> [] \<and> token \<noteq> Some secret
      | None \<Rightarrow> False)"

text \<open>Line 232: \<open>Number(process.env.MAX_EVENTS || rawEvents.length)\<close>.\<close>

definition max_events :: "environment \<Rightarrow> nat \<Rightarrow> jsnum" where
  "max_events env n =
     (case MAX_EVENTS env of
        Some s \<Rightarrow> if s \<noteq> [] then Number_of env s else Num (int n)
      | None \<Rightarrow> Num (int n))"

text \<open>
  \<open>POST /api/refresh\<close>: \<open>sheet\<close> is what the read of the sheet comes to for this request, a
  thrown value or \<open>data.values\<close>.
\<close>

definition refresh ::
  "'c service \<Rightarrow> clock \<Rightarrow> environment \<Rightarrow> string option
     \<Rightarrow> js_error + string list list option \<Rightarrow> 'c state \<Rightarrow> http_response \<times> 'c state" where
  "refresh svc clk env token sheet st =
     (if token_mismatch env token then (unauthorized, st)
      else
        (let st1 = st\<lparr>sheet_reads := sheet_reads st + 1\<rparr>
         in case sheet of
              Inl e \<Rightarrow> (error_response e, st1)
            | Inr values \<Rightarrow>
                (let rows = sheet_rows values;
                     rawEvents = map rowToEvent rows;
                     max = max_events env (length rawEvents);
                     toClassify = slice0 rawEvents max
                 in case classify_all svc clk toClassify [] st1 of
                      (Inl e, st2) \<Rightarrow> (error_response e, st2)
                    | (Inr results, st2) \<Rightarrow>
                        (\<lparr>code = 200,
                          body = JObject [(''ok'', JBool True),
                                          (''count'', JNumber (real (length results)))]\<rparr>,
                         st2\<lparr>cachedEvents := results\<rparr>))))"

section \<open>Definitions used to state the properties\<close>

text \<open>The tokens of a date string, as \<open>parseCampusDate\<close> computes them.\<close>

definition date_parts :: "string \<Rightarrow> string list" where
  "date_parts s = split_on CHR '' '' (collapse_ws (toLowerCase (trim s)))"

text \<open>Property access \<open>v[k]\<close> on a value.\<close>

definition field :: "jsval \<Rightarrow> string \<Rightarrow> jsval" where
  "field v k =
     (case v of
        JObject kvs \<Rightarrow> (case map_of kvs k of Some x \<Rightarrow> x | None \<Rightarrow> Undefined)
      | _ \<Rightarrow> Undefined)"

text \<open>
  The specification's conversion from the 12-hour clock, in its words: "pm" adds 12 unless
  the hour is already 12; "am" zeroes hour 12, otherwise the hour is unchanged.
\<close>

definition spec_hour24 :: "int \<Rightarrow> string option \<Rightarrow> int" where
  "spec_hour24 h mer =
     (if mer = Some ''pm'' then (if h = 12 then h else h + 12)
      else if mer = Some ''am'' then (if h = 12 then 0 else h)
      else h)"

text \<open>
  The conversion as lines 87 and 88 of the source do it: "pm" adds 12 below 12, "am" zeroes
  hour 12, any other hour is unchanged.
\<close>

definition hour24 :: "int \<Rightarrow> string option \<Rightarrow> int" where
  "hour24 h mer =
     (if mer = Some ''pm'' \<and> h < 12 then h + 12
      else if mer = Some ''am'' \<and> h = 12 then 0
      else h)"

text \<open>
  The specification's category rules, in its words: an ordered list of keyword groups, the
  first group with a keyword among the tokens decides, and no match gives "Other".
\<close>

definition category_rules :: "(string list \<times> string) list" where
  "category_rules =
     [([''workshop'', ''tutorial'', ''bootcamp''], ''Workshop''),
      ([''career'', ''recruit'', ''internship''], ''Career''),
      ([''game'', ''party'', ''mixer'', ''social''], ''Social''),
      ([''club'', ''org'', ''meeting''], ''Club/Org''),
      ([''volunteer'', ''service''], ''Volunteer''),
      ([''lecture'', ''seminar'', ''talk'', ''colloquium''], ''Academic''),
      ([''basketball'', ''soccer'', ''run'', ''tournament''], ''Sports''),
      ([''heritage'', ''cultural'', ''festival'', ''film''], ''Cultural'')]"

fun first_match :: "(string list \<times> string) list \<Rightarrow> string list \<Rightarrow> string" where
  "first_match [] tokens = ''Other''"
| "first_match ((keys, label) # rules) tokens =
     (if list_ex (\<lambda>k. k \<in> set tokens) keys then label else first_match rules tokens)"

text \<open>
  The specification's retry eligibility, in its words: status 429, a status in 500..599, or
  a malformed-output failure.
\<close>

definition spec_retryable :: "js_error \<Rightarrow> bool" where
  "spec_retryable e \<longleftrightarrow>
     error_status e = Some 429
     \<or> (case error_status e of Some s \<Rightarrow> s \<in> {500..599} | None \<Rightarrow> False)
     \<or> message e = ''bad_json''"

text \<open>The first \<open>k\<close> delays of a backoff that starts at \<open>d\<close> and doubles.\<close>

fun backoff :: "int \<Rightarrow> nat \<Rightarrow> int list" where
  "backoff d 0 = []"
| "backoff d (Suc k) = d # backoff (d * 2) k"

text \<open>
  A classified event \<open>r\<close> is the event \<open>ev\<close> with a classification that
  \<open>classifyWithRetry\<close> returned for \<open>ev\<close>.
\<close>

definition produced_by ::
  "'c service \<Rightarrow> clock \<Rightarrow> classified_event \<Rightarrow> raw_event \<Rightarrow> bool" where
  "produced_by svc clk r ev \<longleftrightarrow>
     event r = ev
     \<and> (\<exists>s s'. classifyWithRetry svc clk ev 2 s = (Inr (classification r), s'))"

subsection \<open>Concrete inputs\<close>

text \<open>A clock in 2026, seven hours behind UTC.\<close>

definition example_clock :: clock where
  "example_clock =
     \<lparr>year_now = 2026, now_ms = 1793700000000, tz_offset = (\<lambda>t. - 25200000)\<rparr>"

text \<open>A service that answers from a script, one outcome per request, then with 404.\<close>

definition failure :: "int \<Rightarrow> js_error" where
  "failure s = \<lparr>status = Some s, response_status = None, message = ''request failed''\<rparr>"

definition scripted :: "remote_outcome list service" where
  "scripted c ev = (case c of [] \<Rightarrow> (Rejected (failure 404), []) | x # xs \<Rightarrow> (x, xs))"

definition start :: "'c \<Rightarrow> 'c state" where
  "start c = \<lparr>cachedEvents = [], remote = c, slept = [], requests = 0, sheet_reads = 0\<rparr>"

definition plain_event :: "string \<Rightarrow> string \<Rightarrow> raw_event" where
  "plain_event t d =
     \<lparr>title = t, date = d, time = [], location = [], org = [], description = [], url = []\<rparr>"

text \<open>An environment whose \<open>Number\<close> is given on the two strings used below.\<close>

definition example_env :: "string option \<Rightarrow> string option \<Rightarrow> environment" where
  "example_env secret cap =
     \<lparr>REFRESH_TOKEN = secret, MAX_EVENTS = cap,
      Number_of = (\<lambda>s. if s = ''-1'' then Num (- 1) else if s = ''2'' then Num 2 else NaN)\<rparr>"

text \<open>A value that satisfies the schema, and a service that always answers with a given value.\<close>

definition example_classification :: jsval where
  "example_classification =
     JObject
       [(''category'', JString ''Career''),
        (''tags'', JArray [JString ''resume'', JString ''networking'']),
        (''audience'', JArray [JString ''Undergrad'', JString ''Grad'']),
        (''normalized_date'', JString ''2026-09-26T18:00:00-07:00''),
        (''location_type'', JString ''On-campus''),
        (''confidence'', JNumber 0.9),
        (''rationale'', JString ''Career fair on campus.'')]"

definition constant_service :: "jsval \<Rightarrow> unit service" where
  "constant_service v c ev = (Responded (Some v), c)"

text \<open>Three rows of a sheet, and a state with a non-empty cache whose service answers three times.\<close>

definition three_rows :: "string list list" where
  "three_rows = [[''Career fair'', ''sept 26 6:00pm'', ''Quarry Plaza''],
                 [''Film night'', ''oct 3 8pm''], [''Open lab'']]"

definition answering :: "remote_outcome list state" where
  "answering = (start [Responded (Some example_classification), Responded (Some JNull),
                       Responded (Some example_classification)])
                 \<lparr>cachedEvents := [\<lparr>event = plain_event ''Old'' [], classification = JNull\<rparr>]\<rparr>"

section \<open>Properties of the date normalizer\<close>

lemma or_one_not_NaN: "\<not> isNaN (or_one x)"
  by (cases x) (simp_all add: or_one_def isNaN_def)

lemma split_on_not_Nil: "split_on sep s \<noteq> []"
  by (induction s) (auto split: list.splits)

lemma js_index_0: "xs \<noteq> [] \<Longrightarrow> js_index xs 0 = Some (hd xs)"
  by (cases xs) (simp_all add: js_index_def)

lemma date_parts_0: "js_index (split_on CHR '' '' (collapse_ws (toLowerCase (trim s)))) 0 = Some (hd (date_parts s))"
  by (simp add: js_index_0 split_on_not_Nil date_parts_def)

lemma parse_sept: "parseCampusDate clk ''sept 26 6:00pm'' =
    New_Date (Num (year_now clk)) (Num 8) (Num 26) (Num 18) (Num 0) (Num 0)"
  by code_simp

lemma parse_empty: "parseCampusDate clk [] = New_Date_now"
  by (simp add: parseCampusDate_def)

lemma parse_xyz: "parseCampusDate clk ''xyz 5'' = New_Date_now"
  by code_simp

lemma time_of_match_pm:
  "parseInt (Some g1) = Num h \<Longrightarrow>
     fst (time_of_match (g1, g2, Some ''pm'')) = Num (if h < 12 then h + 12 else h)"
  by (simp add: time_of_match_def Let_def)

lemma time_of_match_am:
  "parseInt (Some g1) = Num h \<Longrightarrow>
     fst (time_of_match (g1, g2, Some ''am'')) = Num (if h = 12 then 0 else h)"
  by (simp add: time_of_match_def Let_def)

lemma time_of_match_none:
  "parseInt (Some g1) = Num h \<Longrightarrow> fst (time_of_match (g1, g2, None)) = Num h"
  by (simp add: time_of_match_def Let_def)

lemma months_None_iff:
  "months k = None \<longleftrightarrow>
     k \<notin> set [''jan'', ''feb'', ''mar'', ''apr'', ''may'', ''jun'', ''jul'', ''aug'', ''sep'',
               ''sept'', ''oct'', ''nov'', ''dec'', ''constructor'', ''__proto__'']"
  by (simp add: months_def)

lemma parse_unresolved:
  "months (hd (date_parts s)) = None \<Longrightarrow> parseCampusDate clk s = New_Date_now"
  by (simp add: parseCampusDate_def Let_def date_parts_0)

lemma parse_day_default:
  assumes "s \<noteq> []" "months (hd (date_parts s)) = Some (MonthIndex i)"
    and "parseInt (js_index (date_parts s) 1) = NaN"
  shows "\<exists>hh mm. parseCampusDate clk s
           = New_Date (Num (year_now clk)) (Num i) (Num 1) hh mm (Num 0)"
  using assms
  by (simp add: parseCampusDate_def Let_def date_parts_0 or_one_def isNaN_def entry_number_def)
     (simp add: date_parts_def)

subsection \<open>The hour of a parsed date\<close>

lemma digits_plain: "\<forall>c\<in>set ''0123456789''. \<not> is_space c \<and> lower_char c = c"
  by code_simp

lemma is_digit_plain: "is_digit c \<Longrightarrow> \<not> is_space c \<and> lower_char c = c"
  unfolding is_digit_def using digits_plain by blast

lemma collapse_ws_plain: "\<forall>c\<in>set t. \<not> is_space c \<Longrightarrow> collapse_ws t = t"
  by (induction t) simp_all

lemma split_on_plain: "sep \<notin> set t \<Longrightarrow> split_on sep t = [t]"
  by (induction t) auto

lemma dropWhile_plain: "t \<noteq> [] \<Longrightarrow> \<not> P (hd t) \<Longrightarrow> dropWhile P t = t"
  by (cases t) simp_all

lemma trim_sept:
  assumes "t \<noteq> []" "\<forall>c\<in>set t. \<not> is_space c"
  shows "trim (''sept 26 '' @ t) = ''sept 26 '' @ t"
proof -
  obtain u c where t: "t = u @ [c]"
    using assms(1) by (cases t rule: rev_cases) auto
  have c: "\<not> is_space c" using assms(2) t by simp
  have "dropWhile is_space (''sept 26 '' @ t) = ''sept 26 '' @ t"
    by (simp add: is_space_def)
  moreover have "dropWhile is_space (rev (''sept 26 '' @ t)) = rev (''sept 26 '' @ t)"
    using c by (simp add: t)
  ultimately show ?thesis by (simp add: trim_def)
qed

lemma date_parts_sept:
  assumes "t \<noteq> []" "\<forall>c\<in>set t. \<not> is_space c \<and> lower_char c = c"
  shows "date_parts (''sept 26 '' @ t) = [''sept'', ''26'', t]"
proof -
  have ns: "\<forall>c\<in>set t. \<not> is_space c" using assms(2) by blast
  have sp: "CHR '' '' \<notin> set t" using ns by (auto simp: is_space_def)
  have low: "toLowerCase (''sept 26 '' @ t) = ''sept 26 '' @ t"
  proof -
    have "map lower_char t = t" using assms(2) by (simp add: map_idI)
    moreover have "map lower_char ''sept 26 '' = ''sept 26 ''" by (simp add: lower_char_def)
    ultimately show ?thesis by (simp add: toLowerCase_def)
  qed
  have d: "dropWhile is_space t = t"
    using assms(1) ns by (cases t) simp_all
  have col: "collapse_ws (''sept 26 '' @ t) = ''sept 26 '' @ t"
    using d by (simp add: is_space_def collapse_ws_plain [OF ns])
  have spl: "split_on CHR '' '' (''sept 26 '' @ t) = [''sept'', ''26'', t]"
    by (simp add: split_on_plain [OF sp])
  show ?thesis
    by (simp only: date_parts_def trim_sept [OF assms(1) ns] low col spl)
qed

lemma js_index_parts_0: "js_index (date_parts s) 0 = Some (hd (date_parts s))"
  by (simp add: js_index_0 date_parts_def split_on_not_Nil)

lemma parse_by_parts:
  assumes "s \<noteq> []" "months (hd (date_parts s)) = Some e"
  shows "parseCampusDate clk s
     = New_Date (Num (year_now clk)) (entry_number e)
         (or_one (parseInt (js_index (date_parts s) 1)))
         (fst (if join_sp (drop 2 (date_parts s)) \<noteq> []
               then (case match_time (join_sp (drop 2 (date_parts s))) of
                       Some m2 \<Rightarrow> time_of_match m2
                     | None \<Rightarrow> (Num 9, Num 0))
               else (Num 9, Num 0)))
         (snd (if join_sp (drop 2 (date_parts s)) \<noteq> []
               then (case match_time (join_sp (drop 2 (date_parts s))) of
                       Some m2 \<Rightarrow> time_of_match m2
                     | None \<Rightarrow> (Num 9, Num 0))
               else (Num 9, Num 0)))
         (Num 0)"
proof -
  have p: "split_on CHR '' '' (collapse_ws (toLowerCase (trim s))) = date_parts s"
    by (simp add: date_parts_def)
  have n: "\<not> isNaN (or_one (parseInt (js_index (date_parts s) 1)))"
    by (rule or_one_not_NaN)
  show ?thesis
    unfolding parseCampusDate_def Let_def p js_index_parts_0
    using assms n by simp
qed

lemma parse_three_parts:
  assumes "s \<noteq> []" "date_parts s = [''sept'', ''26'', t]" "t \<noteq> []"
  shows "parseCampusDate clk s
     = (case match_time t of
          Some m2 \<Rightarrow> New_Date (Num (year_now clk)) (Num 8) (Num 26)
                       (fst (time_of_match m2)) (snd (time_of_match m2)) (Num 0)
        | None \<Rightarrow> New_Date (Num (year_now clk)) (Num 8) (Num 26) (Num 9) (Num 0) (Num 0))"
proof -
  have m: "months (hd (date_parts s)) = Some (MonthIndex 8)"
    by (simp add: assms(2) months_def)
  have d: "or_one (parseInt (Some ''26'')) = Num 26" by code_simp
  have i: "js_index (date_parts s) 1 = Some ''26''"
    by (simp add: assms(2) js_index_def)
  have j: "join_sp (drop 2 (date_parts s)) = t"
    by (simp add: assms(2))
  show ?thesis
    unfolding parse_by_parts [OF assms(1) m] i j d
    using assms(3) by (simp add: entry_number_def split: option.splits)
qed

lemma parseInt_digits:
  assumes "g \<noteq> []" "\<forall>c\<in>set g. is_digit c"
  shows "parseInt (Some g) = Num (digits_value g)"
proof -
  obtain c u where g: "g = c # u" using assms(1) by (cases g) auto
  have c: "is_digit c" using assms(2) g by simp
  then have n: "\<not> is_space c" "c \<noteq> CHR ''-''" "c \<noteq> CHR ''+''"
    by (auto simp: is_digit_def is_space_def)
  have t: "takeWhile is_digit (c # u) = c # u"
    using assms(2) g by (simp add: takeWhile_eq_all_conv)
  show ?thesis
    unfolding g using n t by (simp add: parseInt_def Let_def)
qed

lemma match_time_hour:
  assumes "g \<noteq> []" "length g \<le> 2" "\<forall>c\<in>set g. is_digit c"
  shows "match_time (g @ ''pm'') = Some (g, None, Some ''pm'')"
    "match_time (g @ ''am'') = Some (g, None, Some ''am'')"
    "match_time g = Some (g, None, None)"
proof -
  have a: "takeWhile is_digit (g @ ''pm'') = g" "takeWhile is_digit (g @ ''am'') = g"
    "takeWhile is_digit g = g"
    using assms(3) by (simp_all add: takeWhile_append2 is_digit_def takeWhile_eq_all_conv)
  show "match_time (g @ ''pm'') = Some (g, None, Some ''pm'')"
    using assms(1,2) by (simp add: match_time_def Let_def a is_space_def)
  show "match_time (g @ ''am'') = Some (g, None, Some ''am'')"
    using assms(1,2) by (simp add: match_time_def Let_def a is_space_def)
  show "match_time g = Some (g, None, None)"
    using assms(1,2) by (simp add: match_time_def Let_def a)
qed

lemma time_of_match_rule:
  "parseInt (Some g1) = Num h \<Longrightarrow>
     fst (time_of_match (g1, g2, mer)) = Num (hour24 h mer)"
  by (simp add: time_of_match_def hour24_def Let_def)

lemma time_of_match_minute:
  "snd (time_of_match (g1, None, mer)) = Num 0"
  by (simp add: time_of_match_def Let_def)

lemma parse_general_hour:
  assumes "s \<noteq> []" "months (hd (date_parts s)) = Some e"
    and "match_time (join_sp (drop 2 (date_parts s))) = Some (g1, g2, mer)"
    and "parseInt (Some g1) = Num h"
  shows "\<exists>d mm. parseCampusDate clk s
           = New_Date (Num (year_now clk)) (entry_number e) d (Num (hour24 h mer)) mm (Num 0)"
proof -
  have t: "join_sp (drop 2 (date_parts s)) \<noteq> []"
    using assms(3) by (auto simp: match_time_def Let_def)
  have f: "fst (time_of_match (g1, g2, mer)) = Num (hour24 h mer)"
    using assms(4) by (rule time_of_match_rule)
  show ?thesis
    unfolding parse_by_parts [OF assms(1,2)] using t f assms(3) by simp
qed

lemma parse_sept_hour:
  assumes "g \<noteq> []" "length g \<le> 2" "\<forall>c\<in>set g. is_digit c"
  shows "parseCampusDate clk (''sept 26 '' @ g @ ''pm'')
       = New_Date (Num (year_now clk)) (Num 8) (Num 26)
           (Num (hour24 (digits_value g) (Some ''pm''))) (Num 0) (Num 0)"
    "parseCampusDate clk (''sept 26 '' @ g @ ''am'')
       = New_Date (Num (year_now clk)) (Num 8) (Num 26)
           (Num (hour24 (digits_value g) (Some ''am''))) (Num 0) (Num 0)"
    "parseCampusDate clk (''sept 26 '' @ g)
       = New_Date (Num (year_now clk)) (Num 8) (Num 26)
           (Num (hour24 (digits_value g) None)) (Num 0) (Num 0)"
proof -
  have pl: "\<forall>c\<in>set g. \<not> is_space c \<and> lower_char c = c"
    using assms(3) is_digit_plain by blast
  have m: "\<not> is_space CHR ''p'' \<and> lower_char CHR ''p'' = CHR ''p''"
    "\<not> is_space CHR ''a'' \<and> lower_char CHR ''a'' = CHR ''a''"
    "\<not> is_space CHR ''m'' \<and> lower_char CHR ''m'' = CHR ''m''"
    by code_simp+
  have pm: "\<forall>c\<in>set (g @ ''pm''). \<not> is_space c \<and> lower_char c = c"
    using pl m by auto
  have am: "\<forall>c\<in>set (g @ ''am''). \<not> is_space c \<and> lower_char c = c"
    using pl m by auto
  have ne: "g @ ''pm'' \<noteq> []" "g @ ''am'' \<noteq> []" by simp_all
  have ns: "''sept 26 '' @ t \<noteq> []" for t :: string by simp
  note p = parseInt_digits [OF assms(1,3)]
  have r1: "fst (time_of_match (g, None, mer)) = Num (hour24 (digits_value g) mer)" for mer
    using p by (rule time_of_match_rule)
  have r2: "snd (time_of_match (g, None, mer)) = Num 0" for mer
    by (rule time_of_match_minute)
  have "parseCampusDate clk (''sept 26 '' @ g @ ''pm'')
     = (case match_time (g @ ''pm'') of
          Some m2 \<Rightarrow> New_Date (Num (year_now clk)) (Num 8) (Num 26)
                       (fst (time_of_match m2)) (snd (time_of_match m2)) (Num 0)
        | None \<Rightarrow> New_Date (Num (year_now clk)) (Num 8) (Num 26) (Num 9) (Num 0) (Num 0))"
    by (rule parse_three_parts [OF ns date_parts_sept [OF ne(1) pm] ne(1)])
  then show "parseCampusDate clk (''sept 26 '' @ g @ ''pm'')
       = New_Date (Num (year_now clk)) (Num 8) (Num 26)
           (Num (hour24 (digits_value g) (Some ''pm''))) (Num 0) (Num 0)"
    by (simp only: match_time_hour(1) [OF assms] option.case r1 r2)
  have "parseCampusDate clk (''sept 26 '' @ g @ ''am'')
     = (case match_time (g @ ''am'') of
          Some m2 \<Rightarrow> New_Date (Num (year_now clk)) (Num 8) (Num 26)
                       (fst (time_of_match m2)) (snd (time_of_match m2)) (Num 0)
        | None \<Rightarrow> New_Date (Num (year_now clk)) (Num 8) (Num 26) (Num 9) (Num 0) (Num 0))"
    by (rule parse_three_parts [OF ns date_parts_sept [OF ne(2) am] ne(2)])
  then show "parseCampusDate clk (''sept 26 '' @ g @ ''am'')
       = New_Date (Num (year_now clk)) (Num 8) (Num 26)
           (Num (hour24 (digits_value g) (Some ''am''))) (Num 0) (Num 0)"
    by (simp only: match_time_hour(2) [OF assms] option.case r1 r2)
  have "parseCampusDate clk (''sept 26 '' @ g)
     = (case match_time g of
          Some m2 \<Rightarrow> New_Date (Num (year_now clk)) (Num 8) (Num 26)
                       (fst (time_of_match m2)) (snd (time_of_match m2)) (Num 0)
        | None \<Rightarrow> New_Date (Num (year_now clk)) (Num 8) (Num 26) (Num 9) (Num 0) (Num 0))"
    by (rule parse_three_parts [OF ns date_parts_sept [OF assms(1) pl] assms(1)])
  then show "parseCampusDate clk (''sept 26 '' @ g)
       = New_Date (Num (year_now clk)) (Num 8) (Num 26)
           (Num (hour24 (digits_value g) None)) (Num 0) (Num 0)"
    by (simp only: match_time_hour(3) [OF assms] option.case r1 r2)
qed

section \<open>Properties of the heuristic classifier\<close>

lemma fallback_category_first_match:
  "fallback_category tokens = first_match category_rules tokens"
  by (simp add: fallback_category_def category_rules_def Let_def)

lemma fallback_category_workshop:
  "''workshop'' \<in> set tokens \<Longrightarrow> fallback_category tokens = ''Workshop''"
  by (simp add: fallback_category_def Let_def)

lemma fallback_category_field:
  "fallbackClassification clk ev = Inr c \<Longrightarrow>
     field c ''category'' = JString (fallback_category (event_tokens ev))"
  by (auto simp: fallbackClassification_def Let_def field_def split: sum.splits)

lemma fallback_category_in_schema: "fallback_category tokens \<in> set schema_categories"
  by (simp add: fallback_category_def schema_categories_def Let_def)

lemma fallback_location_type_in_schema:
  "fallback_location_type tokens \<in> set schema_location_types"
  by (simp add: fallback_location_type_def schema_location_types_def Let_def)

lemma fallback_audience_shape:
  "\<exists>rest. fallback_audience tokens = ''Undergrad'' # rest \<and> set rest \<subseteq> set schema_audiences"
  by (auto simp: fallback_audience_def schema_audiences_def Let_def)

lemma list_all_is_string: "list_all is_string (map JString xs)"
  by (induction xs) (simp_all add: is_string_def)

lemma list_all_string_in:
  "set xs \<subseteq> set allowed \<Longrightarrow> list_all (string_in allowed) (map JString xs)"
  by (induction xs) (simp_all add: string_in_def)

lemma audience_ok:
  "array_of (string_in schema_audiences) (Suc 0) 3 (JArray (map JString (take 3 (fallback_audience tokens))))"
proof -
  obtain rest where a: "fallback_audience tokens = ''Undergrad'' # rest"
    and r: "set rest \<subseteq> set schema_audiences"
    using fallback_audience_shape by blast
  have u: "''Undergrad'' \<in> set schema_audiences" by (simp add: schema_audiences_def)
  have "set (take 3 (fallback_audience tokens)) \<subseteq> set (fallback_audience tokens)"
    by (rule set_take_subset)
  also have "\<dots> \<subseteq> set schema_audiences" using a r u by simp
  finally have "list_all (string_in schema_audiences) (map JString (take 3 (fallback_audience tokens)))"
    by (rule list_all_string_in)
  moreover have "Suc 0 \<le> length (take 3 (fallback_audience tokens))" using a by simp
  ultimately show ?thesis by (simp add: array_of_def)
qed

lemma tags_ok: "array_of is_string 0 8 (JArray (map JString (take 8 xs)))"
  by (simp add: array_of_def list_all_is_string)

lemma conforms_object:
  assumes "string_in schema_categories c" "array_of is_string 0 8 t"
    "array_of (string_in schema_audiences) 1 3 a" "is_string n"
    "string_in schema_location_types l" "number_in 0 1 x" "is_string r"
  shows "conforms (JObject [(''category'', c), (''tags'', t), (''audience'', a),
           (''normalized_date'', n), (''location_type'', l), (''confidence'', x),
           (''rationale'', r)])"
  using assms by (simp add: conforms_def prop_ok_def schema_required_def)

lemma fallback_conforms:
  assumes "fallbackClassification clk ev = Inr c"
  shows "conforms c"
proof -
  obtain n where c: "c = JObject
       [(''category'', JString (fallback_category (event_tokens ev))),
        (''tags'', JArray (map JString (take 8 (dedup
            (fallback_tags (fallback_category (event_tokens ev)) (event_tokens ev)))))),
        (''audience'', JArray (map JString (take 3 (fallback_audience (event_tokens ev))))),
        (''normalized_date'', JString n),
        (''location_type'', JString (fallback_location_type (event_tokens ev))),
        (''confidence'', JNumber 0.25),
        (''rationale'', JString fallback_rationale)]"
    using assms by (auto simp: fallbackClassification_def Let_def split: sum.splits)
  show ?thesis
    unfolding c
    by (rule conforms_object)
       (simp_all add: string_in_def fallback_category_in_schema fallback_location_type_in_schema
          tags_ok audience_ok is_string_def number_in_def)
qed

lemma fallback_constructor:
  "fallbackClassification clk (ev\<lparr>date := ''constructor 5''\<rparr>) = Inl range_error"
proof -
  have "parseCampusDate clk ''constructor 5''
          = New_Date (Num (year_now clk)) NaN (Num 5) (Num 9) (Num 0) (Num 0)"
    by code_simp
  then show ?thesis
    by (simp add: fallbackClassification_def Let_def toISOString_def)
qed

lemma fallback_big_day:
  "fallbackClassification example_clock (ev\<lparr>date := ''jan 999999999''\<rparr>) = Inl range_error"
proof -
  have "toISOString example_clock (parseCampusDate example_clock ''jan 999999999'') = Inl range_error"
    by code_simp
  then show ?thesis
    by (simp add: fallbackClassification_def Let_def)
qed

section \<open>Properties of the orchestrator\<close>

lemma classifyEvent_effects:
  assumes "classifyEvent svc ev st = (r, st')"
  shows "slept st' = slept st" "requests st' = Suc (requests st)"
    "cachedEvents st' = cachedEvents st" "sheet_reads st' = sheet_reads st"
  using assms
  by (auto simp: classifyEvent_def Let_def split: prod.splits remote_outcome.splits option.splits)

lemma retry_condition:
  "(error_status e = Some 429
      \<or> (case error_status e of Some s \<Rightarrow> s \<ge> 500 \<and> s < 600 | None \<Rightarrow> False)
      \<or> message e = ''bad_json'') = spec_retryable e"
  by (auto simp: spec_retryable_def split: option.splits)

lemma loop_success:
  "a \<le> m \<Longrightarrow> classifyEvent svc ev st = (Inr v, st') \<Longrightarrow>
     classifyWithRetry_loop svc clk ev m a d st = (Inr v, st')"
  by (subst classifyWithRetry_loop.simps) simp

lemma loop_retry:
  "a < m \<Longrightarrow> classifyEvent svc ev st = (Inl e, st') \<Longrightarrow> spec_retryable e \<Longrightarrow>
     classifyWithRetry_loop svc clk ev m a d st
       = classifyWithRetry_loop svc clk ev m (a + 1) (d * 2) (sleep d st')"
  by (subst classifyWithRetry_loop.simps) (simp add: Let_def retry_condition)

lemma loop_fallback:
  "a \<le> m \<Longrightarrow> classifyEvent svc ev st = (Inl e, st') \<Longrightarrow> \<not> (a < m \<and> spec_retryable e) \<Longrightarrow>
     classifyWithRetry_loop svc clk ev m a d st = (fallbackClassification clk ev, st')"
  by (subst classifyWithRetry_loop.simps) (auto simp: Let_def retry_condition)

lemma loop_exit:
  "\<not> a \<le> m \<Longrightarrow> classifyWithRetry_loop svc clk ev m a d st = (Inr Undefined, st)"
  by (subst classifyWithRetry_loop.simps) simp

lemma loop_cases:
  assumes "a \<le> m"
  obtains (success) v st' where "classifyEvent svc ev st = (Inr v, st')"
      "classifyWithRetry_loop svc clk ev m a d st = (Inr v, st')"
  | (retry) e st' where "classifyEvent svc ev st = (Inl e, st')" "a < m" "spec_retryable e"
      "classifyWithRetry_loop svc clk ev m a d st
         = classifyWithRetry_loop svc clk ev m (a + 1) (d * 2) (sleep d st')"
  | (fallback) e st' where "classifyEvent svc ev st = (Inl e, st')"
      "\<not> (a < m \<and> spec_retryable e)"
      "classifyWithRetry_loop svc clk ev m a d st = (fallbackClassification clk ev, st')"
proof -
  obtain r st' where c: "classifyEvent svc ev st = (r, st')"
    by (cases "classifyEvent svc ev st")
  show thesis
  proof (cases r)
    case (Inr v)
    with c assms show thesis by (auto intro: success loop_success)
  next
    case (Inl e)
    show thesis
    proof (cases "a < m \<and> spec_retryable e")
      case True
      with c Inl show thesis by (auto intro: retry loop_retry)
    next
      case False
      with c Inl assms show thesis by (auto intro!: fallback loop_fallback)
    qed
  qed
qed

lemma loop_backoff:
  "a \<le> m \<Longrightarrow>
     \<exists>k. int k \<le> m - a
       \<and> slept (snd (classifyWithRetry_loop svc clk ev m a d st)) = slept st @ backoff d k
       \<and> requests (snd (classifyWithRetry_loop svc clk ev m a d st)) = requests st + Suc k"
proof (induction "nat (m - a)" arbitrary: a d st)
  case 0
  then have am: "a \<le> m" "\<not> a < m" by simp_all
  from am(1) show ?case
  proof (cases rule: loop_cases [where svc = svc and ev = ev and st = st and clk = clk and d = d])
    case (success v st')
    then show ?thesis using classifyEvent_effects [OF success(1)]
      by (intro exI [of _ 0]) (simp add: am)
  next
    case (retry e st')
    with am show ?thesis by simp
  next
    case (fallback e st')
    then show ?thesis using classifyEvent_effects [OF fallback(1)]
      by (intro exI [of _ 0]) (simp add: am)
  qed
next
  case (Suc n)
  then have am: "a \<le> m" by simp
  from am show ?case
  proof (cases rule: loop_cases [where svc = svc and ev = ev and st = st and clk = clk and d = d])
    case (success v st')
    then show ?thesis using classifyEvent_effects [OF success(1)] am
      by (intro exI [of _ 0]) simp
  next
    case (fallback e st')
    then show ?thesis using classifyEvent_effects [OF fallback(1)] am
      by (intro exI [of _ 0]) simp
  next
    case (retry e st')
    have n: "n = nat (m - (a + 1))" using Suc(2) by simp
    have le: "a + 1 \<le> m" using retry(2) by simp
    from Suc(1) [OF n le, of "d * 2" "sleep d st'"]
    obtain k where k: "int k \<le> m - (a + 1)"
      "slept (snd (classifyWithRetry_loop svc clk ev m (a + 1) (d * 2) (sleep d st')))
         = slept (sleep d st') @ backoff (d * 2) k"
      "requests (snd (classifyWithRetry_loop svc clk ev m (a + 1) (d * 2) (sleep d st')))
         = requests (sleep d st') + Suc k"
      by blast
    show ?thesis
      using k retry(4) classifyEvent_effects [OF retry(1)]
      by (intro exI [of _ "Suc k"]) (simp add: sleep_def)
  qed
qed

lemma loop_cache:
  "cachedEvents (snd (classifyWithRetry_loop svc clk ev m a d st)) = cachedEvents st
   \<and> sheet_reads (snd (classifyWithRetry_loop svc clk ev m a d st)) = sheet_reads st"
proof (cases "a \<le> m")
  case False
  then show ?thesis by (simp add: loop_exit)
next
  case True
  then show ?thesis
  proof (induction "nat (m - a)" arbitrary: a d st)
    case 0
    from 0(2) show ?case
    proof (cases rule: loop_cases [where svc = svc and ev = ev and st = st and clk = clk and d = d])
      case (success v st')
      then show ?thesis using classifyEvent_effects [OF success(1)] by simp
    next
      case (retry e st')
      with 0 show ?thesis by simp
    next
      case (fallback e st')
      then show ?thesis using classifyEvent_effects [OF fallback(1)] by simp
    qed
  next
    case (Suc n)
    from Suc(3) show ?case
    proof (cases rule: loop_cases [where svc = svc and ev = ev and st = st and clk = clk and d = d])
      case (success v st')
      then show ?thesis using classifyEvent_effects [OF success(1)] by simp
    next
      case (fallback e st')
      then show ?thesis using classifyEvent_effects [OF fallback(1)] by simp
    next
      case (retry e st')
      have n: "n = nat (m - (a + 1))" using Suc(2) by simp
      have le: "a + 1 \<le> m" using retry(2) by simp
      from Suc(1) [OF n le, of "d * 2" "sleep d st'"]
      show ?thesis
        using retry(4) classifyEvent_effects [OF retry(1)] by (simp add: sleep_def)
    qed
  qed
qed

lemma classifyEvent_Inr:
  "classifyEvent svc ev st = (Inr v, st') \<Longrightarrow>
     \<exists>c. svc (remote st) ev = (Responded (Some v), c)"
  by (auto simp: classifyEvent_def Let_def split: prod.splits remote_outcome.splits option.splits)

lemma loop_origin:
  "a \<le> m \<Longrightarrow> fst (classifyWithRetry_loop svc clk ev m a d st) = Inr v \<Longrightarrow>
     (\<exists>c c'. svc c ev = (Responded (Some v), c')) \<or> fallbackClassification clk ev = Inr v"
proof (induction "nat (m - a)" arbitrary: a d st)
  case 0
  from 0(2) show ?case
  proof (cases rule: loop_cases [where svc = svc and ev = ev and st = st and clk = clk and d = d])
    case (success w st')
    then show ?thesis using 0(3) classifyEvent_Inr [OF success(1)] by auto
  next
    case (retry e st')
    with 0 show ?thesis by simp
  next
    case (fallback e st')
    then show ?thesis using 0(3) by simp
  qed
next
  case (Suc n)
  from Suc(3) show ?case
  proof (cases rule: loop_cases [where svc = svc and ev = ev and st = st and clk = clk and d = d])
    case (success w st')
    then show ?thesis using Suc(4) classifyEvent_Inr [OF success(1)] by auto
  next
    case (fallback e st')
    then show ?thesis using Suc(4) by simp
  next
    case (retry e st')
    have n: "n = nat (m - (a + 1))" using Suc(2) by simp
    have le: "a + 1 \<le> m" using retry(2) by simp
    from Suc(1) [OF n le, of "d * 2" "sleep d st'"] Suc(4) retry(4)
    show ?thesis by simp
  qed
qed

section \<open>Properties of the refresh route\<close>

lemma classifyWithRetry_cache:
  "cachedEvents (snd (classifyWithRetry svc clk ev m st)) = cachedEvents st"
  by (simp add: classifyWithRetry_def loop_cache)

lemma classify_all_cache:
  "cachedEvents (snd (classify_all svc clk evs acc st)) = cachedEvents st"
proof (induction evs arbitrary: acc st)
  case Nil
  show ?case by simp
next
  case (Cons ev evs)
  obtain r st' where c: "classifyWithRetry svc clk ev 2 st = (r, st')"
    by (cases "classifyWithRetry svc clk ev 2 st")
  have st': "cachedEvents st' = cachedEvents st"
    using classifyWithRetry_cache [of svc clk ev 2 st] c by simp
  show ?case
  proof (cases r)
    case (Inl e)
    with c st' show ?thesis by simp
  next
    case (Inr cls)
    with c st' Cons.IH [of "acc @ [\<lparr>event = ev, classification = cls\<rparr>]" st']
    show ?thesis by simp
  qed
qed

lemma classify_all_results:
  "classify_all svc clk evs acc st = (Inr results, st') \<Longrightarrow>
     \<exists>new. results = acc @ new \<and> list_all2 (produced_by svc clk) new evs"
proof (induction evs arbitrary: acc st)
  case Nil
  then show ?case by simp
next
  case (Cons ev evs)
  obtain r s1 where c: "classifyWithRetry svc clk ev 2 st = (r, s1)"
    by (cases "classifyWithRetry svc clk ev 2 st")
  show ?case
  proof (cases r)
    case (Inl e)
    with c Cons.prems show ?thesis by simp
  next
    case (Inr cls)
    let ?r = "\<lparr>event = ev, classification = cls\<rparr>"
    have "classify_all svc clk evs (acc @ [?r]) s1 = (Inr results, st')"
      using c Inr Cons.prems by simp
    from Cons.IH [OF this] obtain new where
      n: "results = (acc @ [?r]) @ new" "list_all2 (produced_by svc clk) new evs"
      by blast
    have "produced_by svc clk ?r ev"
      using c Inr by (auto simp: produced_by_def)
    with n show ?thesis
      by (intro exI [of _ "?r # new"]) simp
  qed
qed

lemma slice0_nat: "slice0 xs (Num (int c)) = take c xs"
  by (simp add: slice0_def)

lemma refresh_success:
  assumes "refresh svc clk env token (Inr values) st = (resp, st')" "code resp = 200"
  shows "\<not> token_mismatch env token
    \<and> list_all2 (produced_by svc clk) (cachedEvents st')
        (slice0 (map rowToEvent (sheet_rows values))
           (max_events env (length (sheet_rows values))))
    \<and> body resp = JObject [(''ok'', JBool True),
                            (''count'', JNumber (real (length (cachedEvents st'))))]"
proof -
  let ?evs = "slice0 (map rowToEvent (sheet_rows values))
                (max_events env (length (sheet_rows values)))"
  let ?st1 = "st\<lparr>sheet_reads := sheet_reads st + 1\<rparr>"
  have t: "\<not> token_mismatch env token"
    using assms by (auto simp: refresh_def unauthorized_def)
  obtain r s2 where c: "classify_all svc clk ?evs [] ?st1 = (r, s2)"
    by (cases "classify_all svc clk ?evs [] ?st1")
  show ?thesis
  proof (cases r)
    case (Inl e)
    with c t assms show ?thesis
      by (auto simp: refresh_def Let_def error_response_def)
  next
    case (Inr results)
    have "list_all2 (produced_by svc clk) results ?evs"
      using classify_all_results [of svc clk ?evs "[]" ?st1 results s2] c Inr by simp
    moreover have "cachedEvents st' = results"
      "body resp = JObject [(''ok'', JBool True), (''count'', JNumber (real (length results)))]"
      using c Inr t assms by (auto simp: refresh_def Let_def)
    ultimately show ?thesis using t by simp
  qed
qed

lemma refresh_failure_cache:
  assumes "code (fst (refresh svc clk env token sheet st)) \<noteq> 200"
  shows "cachedEvents (snd (refresh svc clk env token sheet st)) = cachedEvents st"
proof (cases "token_mismatch env token")
  case True
  then show ?thesis by (simp add: refresh_def)
next
  case False
  let ?st1 = "st\<lparr>sheet_reads := sheet_reads st + 1\<rparr>"
  show ?thesis
  proof (cases sheet)
    case (Inl e)
    with False show ?thesis by (simp add: refresh_def Let_def)
  next
    case (Inr vals)
    let ?evs = "slice0 (map rowToEvent (sheet_rows vals))
                  (max_events env (length (sheet_rows vals)))"
    obtain r s2 where c: "classify_all svc clk ?evs [] ?st1 = (r, s2)"
      by (cases "classify_all svc clk ?evs [] ?st1")
    have s2: "cachedEvents s2 = cachedEvents st"
      using classify_all_cache [of svc clk ?evs "[]" ?st1] c by simp
    note sheet = Inr
    show ?thesis
    proof (cases r)
      case (Inl e)
      with c s2 False sheet show ?thesis
        by (simp add: refresh_def Let_def)
    next
      case (Inr results)
      with c False sheet assms show ?thesis
        by (simp add: refresh_def Let_def)
    qed
  qed
qed

lemma example_classification_conforms: "conforms example_classification"
  by (simp add: example_classification_def conforms_def prop_ok_def schema_required_def
      string_in_def schema_categories_def array_of_def is_string_def schema_audiences_def
      schema_location_types_def number_in_def)

section \<open>The claims\<close>

subsection \<open>C7: examples of the date normalizer and the 12-hour conversion\<close>

text \<open>
  As the claim states it, "pm" adds 12 unless the hour is already 12. The source adds 12 only
  below 12: for \<open>"sept 26 15pm"\<close> the hour stays 15, where the rule of the claim gives 27.
\<close>

theorem C7_counterexample:
  "parseCampusDate example_clock ''sept 26 15pm''
     = New_Date (Num 2026) (Num 8) (Num 26) (Num 15) (Num 0) (Num 0)
   \<and> spec_hour24 15 (Some ''pm'') = 27"
  by code_simp

text \<open>
  Claim C7, amended. \<open>parseCampusDate\<close> yields for \<open>"sept 26 6:00pm"\<close> a date built from
  month index 8, day 26, hour 18 and minute 0 of the current year; for the empty string and
  for \<open>"xyz 5"\<close> it returns the current instant. For every input whose month token is
  found and whose time part matches the pattern with hour \<open>h\<close>, the hour of the date
  returned is \<open>h + 12\<close> when the meridiem is "pm" and \<open>h\<close> is below 12, 0 when the
  meridiem is "am" and \<open>h\<close> is 12, and \<open>h\<close> otherwise. In particular, for every hour
  written with one or two digits, \<open>"sept 26 <h>pm"\<close>, \<open>"sept 26 <h>am"\<close> and
  \<open>"sept 26 <h>"\<close> are parsed with these hours. Up to hour 12 this is the conversion of
  the specification; from 13 on "pm" leaves the hour unchanged.
\<close>

theorem C7_normalizer_examples:
  "parseCampusDate clk ''sept 26 6:00pm''
     = New_Date (Num (year_now clk)) (Num 8) (Num 26) (Num 18) (Num 0) (Num 0)
   \<and> parseCampusDate clk [] = New_Date_now
   \<and> parseCampusDate clk ''xyz 5'' = New_Date_now
   \<and> (s \<noteq> [] \<and> months (hd (date_parts s)) = Some e
        \<and> match_time (join_sp (drop 2 (date_parts s))) = Some (g1, g2, mer)
        \<and> parseInt (Some g1) = Num h \<longrightarrow>
        (\<exists>d mm. parseCampusDate clk s
           = New_Date (Num (year_now clk)) (entry_number e) d (Num (hour24 h mer)) mm (Num 0)))
   \<and> (g \<noteq> [] \<and> length g \<le> 2 \<and> (\<forall>c\<in>set g. is_digit c) \<longrightarrow>
        parseCampusDate clk (''sept 26 '' @ g @ ''pm'')
          = New_Date (Num (year_now clk)) (Num 8) (Num 26)
              (Num (if digits_value g < 12 then digits_value g + 12 else digits_value g))
              (Num 0) (Num 0)
        \<and> parseCampusDate clk (''sept 26 '' @ g @ ''am'')
          = New_Date (Num (year_now clk)) (Num 8) (Num 26)
              (Num (if digits_value g = 12 then 0 else digits_value g)) (Num 0) (Num 0)
        \<and> parseCampusDate clk (''sept 26 '' @ g)
          = New_Date (Num (year_now clk)) (Num 8) (Num 26) (Num (digits_value g))
              (Num 0) (Num 0))
   \<and> (parseInt (Some g1) = Num h \<longrightarrow>
        fst (time_of_match (g1, g2, Some ''pm'')) = Num (if h < 12 then h + 12 else h)
        \<and> fst (time_of_match (g1, g2, Some ''am'')) = Num (if h = 12 then 0 else h)
        \<and> fst (time_of_match (g1, g2, None)) = Num h
        \<and> (h \<le> 12 \<longrightarrow> fst (time_of_match (g1, g2, mer)) = Num (spec_hour24 h mer)))
   \<and> (h \<le> 12 \<longrightarrow> hour24 h mer = spec_hour24 h mer)
   \<and> (12 < h \<longrightarrow> hour24 h (Some ''pm'') = h)"
proof -
  have a: "fst (time_of_match (g1, g2, mer)) = Num (spec_hour24 h mer)"
    if "parseInt (Some g1) = Num h" "h \<le> 12"
    using that by (simp add: time_of_match_def spec_hour24_def Let_def)
  have b: "\<exists>d mm. parseCampusDate clk s
           = New_Date (Num (year_now clk)) (entry_number e) d (Num (hour24 h mer)) mm (Num 0)"
    if "s \<noteq> []" "months (hd (date_parts s)) = Some e"
      "match_time (join_sp (drop 2 (date_parts s))) = Some (g1, g2, mer)"
      "parseInt (Some g1) = Num h"
    using that by (rule parse_general_hour)
  have c: "parseCampusDate clk (''sept 26 '' @ g @ ''pm'')
          = New_Date (Num (year_now clk)) (Num 8) (Num 26)
              (Num (if digits_value g < 12 then digits_value g + 12 else digits_value g))
              (Num 0) (Num 0)
        \<and> parseCampusDate clk (''sept 26 '' @ g @ ''am'')
          = New_Date (Num (year_now clk)) (Num 8) (Num 26)
              (Num (if digits_value g = 12 then 0 else digits_value g)) (Num 0) (Num 0)
        \<and> parseCampusDate clk (''sept 26 '' @ g)
          = New_Date (Num (year_now clk)) (Num 8) (Num 26) (Num (digits_value g))
              (Num 0) (Num 0)"
    if "g \<noteq> []" "length g \<le> 2" "\<forall>c\<in>set g. is_digit c"
    using parse_sept_hour [OF that, of clk] by (simp add: hour24_def)
  have d: "hour24 h mer = spec_hour24 h mer" if "h \<le> 12"
    using that by (simp add: hour24_def spec_hour24_def)
  have e: "hour24 h (Some ''pm'') = h" if "12 < h"
    using that by (simp add: hour24_def)
  show ?thesis
    using parse_sept [of clk] parse_empty [of clk] parse_xyz [of clk]
      time_of_match_pm [of g1 h g2] time_of_match_am [of g1 h g2]
      time_of_match_none [of g1 h g2] a b c d e
    by blast
qed

theorem C7_normalizer_examples_witness:
  "parseCampusDate example_clock ''sept 26 6pm''
     = New_Date (Num 2026) (Num 8) (Num 26) (Num 18) (Num 0) (Num 0)
   \<and> parseCampusDate example_clock ''sept 26 12pm''
     = New_Date (Num 2026) (Num 8) (Num 26) (Num 12) (Num 0) (Num 0)
   \<and> parseCampusDate example_clock ''sept 26 15pm''
     = New_Date (Num 2026) (Num 8) (Num 26) (Num 15) (Num 0) (Num 0)
   \<and> parseCampusDate example_clock ''sept 26 12am''
     = New_Date (Num 2026) (Num 8) (Num 26) (Num 0) (Num 0) (Num 0)
   \<and> parseCampusDate example_clock ''sept 26 7am''
     = New_Date (Num 2026) (Num 8) (Num 26) (Num 7) (Num 0) (Num 0)
   \<and> parseCampusDate example_clock ''sept 26 15''
     = New_Date (Num 2026) (Num 8) (Num 26) (Num 15) (Num 0) (Num 0)
   \<and> match_time (join_sp (drop 2 (date_parts ''Oct 3  11:30 PM'')))
     = Some (''11'', Some ''30'', Some ''pm'')
   \<and> (\<exists>d mm. parseCampusDate example_clock ''Oct 3  11:30 PM''
         = New_Date (Num 2026) (Num 9) d (Num 23) mm (Num 0))
   \<and> fst (time_of_match (''12'', Some ''00'', Some ''am'')) = Num 0
   \<and> fst (time_of_match (''15'', None, Some ''pm'')) = Num 15
   \<and> fst (time_of_match (''6'', Some ''00'', Some ''pm'')) = Num (spec_hour24 6 (Some ''pm''))
   \<and> hour24 12 (Some ''pm'') = spec_hour24 12 (Some ''pm'')
   \<and> hour24 15 (Some ''pm'') = 15"
proof -
  have y: "year_now example_clock = 2026" by (simp add: example_clock_def)
  have v: "digits_value ''6'' = 6" "digits_value ''12'' = 12" "digits_value ''15'' = 15"
    "digits_value ''7'' = 7"
    by code_simp+
  have dg: "\<forall>c\<in>set ''6''. is_digit c" "\<forall>c\<in>set ''12''. is_digit c"
    "\<forall>c\<in>set ''15''. is_digit c" "\<forall>c\<in>set ''7''. is_digit c"
    by code_simp+
  have p: "parseInt (Some ''6'') = Num 6" "parseInt (Some ''12'') = Num 12"
    "parseInt (Some ''15'') = Num 15" "parseInt (Some ''11'') = Num 11"
    by code_simp+
  have o: "''Oct 3  11:30 PM'' \<noteq> []"
    "months (hd (date_parts ''Oct 3  11:30 PM'')) = Some (MonthIndex 9)"
    "match_time (join_sp (drop 2 (date_parts ''Oct 3  11:30 PM'')))
       = Some (''11'', Some ''30'', Some ''pm'')"
    by code_simp+
  note t6 = C7_normalizer_examples [where clk = example_clock and g = "''6''"
      and ?g1.0 = "''6''" and h = 6 and ?g2.0 = "Some ''00''" and mer = "Some ''pm''"]
  note t12 = C7_normalizer_examples [where clk = example_clock and g = "''12''"
      and ?g1.0 = "''12''" and h = 12 and ?g2.0 = "Some ''00''" and mer = "Some ''pm''"]
  note t15 = C7_normalizer_examples [where clk = example_clock and g = "''15''"
      and ?g1.0 = "''15''" and h = 15 and ?g2.0 = None and mer = "Some ''pm''"]
  note t7 = C7_normalizer_examples [where clk = example_clock and g = "''7''"]
  note to = C7_normalizer_examples [where clk = example_clock and s = "''Oct 3  11:30 PM''"
      and e = "MonthIndex 9" and ?g1.0 = "''11''" and ?g2.0 = "Some ''30''"
      and mer = "Some ''pm''" and h = 11]
  have 1: "parseCampusDate example_clock ''sept 26 6pm''
     = New_Date (Num 2026) (Num 8) (Num 26) (Num 18) (Num 0) (Num 0)"
    using t6 dg(1) by (simp add: v y)
  have 2: "parseCampusDate example_clock ''sept 26 12pm''
     = New_Date (Num 2026) (Num 8) (Num 26) (Num 12) (Num 0) (Num 0)"
    "parseCampusDate example_clock ''sept 26 12am''
     = New_Date (Num 2026) (Num 8) (Num 26) (Num 0) (Num 0) (Num 0)"
    using t12 dg(2) by (simp_all add: v y)
  have 3: "parseCampusDate example_clock ''sept 26 15pm''
     = New_Date (Num 2026) (Num 8) (Num 26) (Num 15) (Num 0) (Num 0)"
    "parseCampusDate example_clock ''sept 26 15''
     = New_Date (Num 2026) (Num 8) (Num 26) (Num 15) (Num 0) (Num 0)"
    using t15 dg(3) by (simp_all add: v y)
  have 4: "parseCampusDate example_clock ''sept 26 7am''
     = New_Date (Num 2026) (Num 8) (Num 26) (Num 7) (Num 0) (Num 0)"
    using t7 dg(4) by (simp add: v y)
  have 5: "\<exists>d mm. parseCampusDate example_clock ''Oct 3  11:30 PM''
         = New_Date (Num 2026) (Num 9) d (Num 23) mm (Num 0)"
    using to o p(4) by (simp add: y entry_number_def hour24_def)
  have 6: "fst (time_of_match (''12'', Some ''00'', Some ''am'')) = Num 0"
    using t12 p(2) by simp
  have 7: "fst (time_of_match (''15'', None, Some ''pm'')) = Num 15"
    using t15 p(3) by simp
  have 8: "fst (time_of_match (''6'', Some ''00'', Some ''pm''))
             = Num (spec_hour24 6 (Some ''pm''))"
    using t6 p(1) by (simp add: spec_hour24_def)
  have 9: "hour24 12 (Some ''pm'') = spec_hour24 12 (Some ''pm'')"
    using t12 by simp
  have 10: "hour24 15 (Some ''pm'') = 15"
    using t15 by simp
  show ?thesis using 1 2 3 4 5 6 7 8 9 10 o(3) by blast
qed

subsection \<open>C8: unresolved month, invalid day\<close>

text \<open>
  As the claim states it, a day token that is not a valid integer gives the current instant.
  In the source \<open>parseInt(parts[1], 10) || 1\<close> turns such a day into 1, so \<open>"sept xx"\<close>
  is the first of September at 09:00.
\<close>

theorem C8_counterexample:
  "hd (date_parts ''sept xx'') = ''sept''
   \<and> js_index (date_parts ''sept xx'') 1 = Some ''xx''
   \<and> parseInt (Some ''xx'') = NaN
   \<and> parseCampusDate example_clock ''sept xx''
       = New_Date (Num 2026) (Num 8) (Num 1) (Num 9) (Num 0) (Num 0)
   \<and> parseCampusDate example_clock ''sept xx'' \<noteq> New_Date_now"
  by code_simp

text \<open>
  Claim C8, amended. For every input string whose month token is not found in the month
  table, \<open>parseCampusDate\<close> returns the current instant; the tokens found are the
  thirteen month keys and the two inherited keys \<open>constructor\<close> and \<open>__proto__\<close>. When
  the month token is a month key and the day token is absent or not an integer, the day
  defaults to 1 and the result is a date of the current year, not the current instant:
  after \<open>|| 1\<close> the day is never \<open>NaN\<close>.
  No operation of \<open>parseCampusDate\<close> can throw on a string: the function has no failing
  branch and always yields a \<open>Date\<close>.
\<close>

theorem C8_unresolved_month_and_day:
  "(months (hd (date_parts s)) = None \<longrightarrow> parseCampusDate clk s = New_Date_now)
   \<and> (months k = None \<longleftrightarrow>
        k \<notin> set [''jan'', ''feb'', ''mar'', ''apr'', ''may'', ''jun'', ''jul'', ''aug'', ''sep'',
                  ''sept'', ''oct'', ''nov'', ''dec'', ''constructor'', ''__proto__''])
   \<and> (s \<noteq> [] \<and> months (hd (date_parts s)) = Some (MonthIndex i)
        \<and> parseInt (js_index (date_parts s) 1) = NaN \<longrightarrow>
        (\<exists>hh mm. parseCampusDate clk s
           = New_Date (Num (year_now clk)) (Num i) (Num 1) hh mm (Num 0)))
   \<and> \<not> isNaN (or_one x)"
  using parse_unresolved [of s clk] months_None_iff [of k] parse_day_default [of s i clk]
    or_one_not_NaN [of x]
  by blast

theorem C8_unresolved_month_and_day_witness:
  "months (hd (date_parts ''xyz 5'')) = None
   \<and> parseCampusDate example_clock ''xyz 5'' = New_Date_now
   \<and> months (hd (date_parts ''sept xx'')) = Some (MonthIndex 8)
   \<and> parseInt (js_index (date_parts ''sept xx'') 1) = NaN
   \<and> (\<exists>hh mm. parseCampusDate example_clock ''sept xx''
         = New_Date (Num (year_now example_clock)) (Num 8) (Num 1) hh mm (Num 0))"
proof -
  have a: "months (hd (date_parts ''xyz 5'')) = None" by code_simp
  have b: "months (hd (date_parts ''sept xx'')) = Some (MonthIndex 8)" by code_simp
  have c: "parseInt (js_index (date_parts ''sept xx'') 1) = NaN" by code_simp
  have d: "''sept xx'' \<noteq> []" by simp
  show ?thesis
    using a b c d C8_unresolved_month_and_day [of "''xyz 5''" example_clock "''xyz''"]
      C8_unresolved_month_and_day [of "''sept xx''" example_clock "''sept''" 8]
    by blast
qed

subsection \<open>C2: the heuristic classifier\<close>

text \<open>
  Claim C2 says that \<open>fallbackClassification\<close> never raises. It raises a \<open>RangeError\<close>
  whenever the date string yields an invalid \<open>Date\<close>, on which \<open>toISOString\<close> throws: with
  the month token \<open>constructor\<close>, under every clock and whatever the other fields are, and
  with a day beyond the range of \<open>Date\<close>, as in \<open>"jan 999999999"\<close>.
\<close>

theorem C2_fallback_raises:
  "fallbackClassification clk (ev\<lparr>date := ''constructor 5''\<rparr>) = Inl range_error
   \<and> fallbackClassification example_clock (ev\<lparr>date := ''jan 999999999''\<rparr>) = Inl range_error"
  by (simp only: fallback_constructor fallback_big_day simp_thms)

subsection \<open>C1: the orchestrator\<close>

text \<open>
  Claim C1 says that \<open>classifyWithRetry\<close> never raises. When it falls back, the exception
  of \<open>fallbackClassification\<close> leaves it: after one request answered with 404, and after
  three requests that fail with 429, 503 and malformed output.
\<close>

theorem C1_orchestrator_raises:
  "classifyWithRetry scripted example_clock (plain_event ''Open house'' ''jan 999999999'') 2
     (start [])
     = (Inl range_error, (start [])\<lparr>requests := 1\<rparr>)
   \<and> classifyWithRetry scripted example_clock (plain_event ''Open house'' ''constructor 5'') 2
       (start [Rejected (failure 429), Rejected (failure 503), Responded None])
     = (Inl range_error, (start [])\<lparr>slept := [1500, 3000], requests := 3\<rparr>)"
  by code_simp

subsection \<open>C9: precedence of the category rules\<close>

text \<open>
  Claim C9. The category of the heuristic classifier is the label of the first rule, in the
  order Workshop, Career, Social, Club/Org, Volunteer, Academic, Sports, Cultural, one of
  whose keywords is among the tokens, and "Other" when no rule matches. Every token list
  that contains both \<open>workshop\<close> and \<open>career\<close> gets the category "Workshop", and so
  does the classification returned for every event with both tokens.
\<close>

theorem C9_category_precedence:
  "fallback_category tokens = first_match category_rules tokens
   \<and> (''workshop'' \<in> set tokens \<and> ''career'' \<in> set tokens \<longrightarrow>
        fallback_category tokens = ''Workshop'')
   \<and> (''workshop'' \<in> set (event_tokens ev) \<and> ''career'' \<in> set (event_tokens ev)
        \<and> fallbackClassification clk ev = Inr c \<longrightarrow>
        field c ''category'' = JString ''Workshop'')"
  using fallback_category_first_match [of tokens] fallback_category_workshop [of tokens]
    fallback_category_workshop [of "event_tokens ev"] fallback_category_field [of clk ev c]
  by simp

theorem C9_category_precedence_witness:
  "''workshop'' \<in> set [''career'', ''workshop'']
   \<and> ''career'' \<in> set [''career'', ''workshop'']
   \<and> fallback_category [''career'', ''workshop''] = ''Workshop''
   \<and> event_tokens (plain_event ''Career Workshop'' ''sept 26 6:00pm'') = [''career'', ''workshop'']
   \<and> (\<exists>c. fallbackClassification example_clock (plain_event ''Career Workshop'' ''sept 26 6:00pm'') = Inr c
         \<and> field c ''category'' = JString ''Workshop'')"
proof -
  have t: "event_tokens (plain_event ''Career Workshop'' ''sept 26 6:00pm'')
             = [''career'', ''workshop'']"
    by code_simp
  have d: "toISOString example_clock (parseCampusDate example_clock ''sept 26 6:00pm'')
             = Inr ''2026-09-27T01:00:00.000Z''"
    by code_simp
  obtain c where c: "fallbackClassification example_clock
      (plain_event ''Career Workshop'' ''sept 26 6:00pm'') = Inr c"
    using d by (simp add: fallbackClassification_def Let_def plain_event_def)
  have w: "''workshop'' \<in> set [''career'', ''workshop'']
      \<and> ''career'' \<in> set [''career'', ''workshop'']"
    by simp
  note th = C9_category_precedence [of "[''career'', ''workshop'']"
      "plain_event ''Career Workshop'' ''sept 26 6:00pm''" example_clock c]
  have 1: "fallback_category [''career'', ''workshop''] = ''Workshop''"
    using th w by blast
  have 2: "field c ''category'' = JString ''Workshop''"
    using th t c w by simp
  show ?thesis using w 1 2 t c by blast
qed

subsection \<open>C3: retry eligibility and backoff\<close>

text \<open>
  Claim C3. A failed attempt is followed by a sleep and a further attempt, with the delay
  doubled, exactly when fewer than \<open>maxRetries\<close> retries were made and the failure carries
  status 429, a status in 500..599, or the message of a malformed output; otherwise the
  result is that of the fallback. With the default of two retries, a failed first request is followed by a second
  request exactly when the failure carries status 429, a status in 500..599, or the message
  of a malformed output; any other failure gives the fallback result at once. The delays
  slept are the first \<open>k\<close> of 1500, 3000 for some \<open>k\<close> up to 2, with \<open>k + 1\<close> requests. A
  service that fails twice with 429 and then answers yields the remote result after
  sleeping 1500 and 3000; a service that fails with 404 yields the fallback result after one
  request and no sleep.
\<close>

theorem C3_retry_policy:
  fixes svc :: "'c service"
  shows
  "(a \<le> m \<and> classifyEvent svc ev st = (Inl e, st1) \<longrightarrow>
      classifyWithRetry_loop svc clk ev m a d st
        = (if a < m \<and> spec_retryable e
           then classifyWithRetry_loop svc clk ev m (a + 1) (d * 2) (sleep d st1)
           else (fallbackClassification clk ev, st1)))
   \<and> (classifyEvent svc ev st = (Inl e, st1) \<longrightarrow>
      (requests st + 1 < requests (snd (classifyWithRetry svc clk ev 2 st))) = spec_retryable e
      \<and> (\<not> spec_retryable e \<longrightarrow>
            classifyWithRetry svc clk ev 2 st = (fallbackClassification clk ev, st1)))
   \<and> (\<exists>k\<le>2. slept (snd (classifyWithRetry svc clk ev 2 st)) = slept st @ backoff 1500 k
          \<and> requests (snd (classifyWithRetry svc clk ev 2 st)) = requests st + Suc k)
   \<and> backoff 1500 2 = [1500, 3000]
   \<and> (svc (remote st) ev = (Rejected e1, c1) \<and> svc c1 ev = (Rejected e2, c2)
        \<and> svc c2 ev = (Responded (Some v), c3)
        \<and> error_status e1 = Some 429 \<and> error_status e2 = Some 429 \<longrightarrow>
        classifyWithRetry svc clk ev 2 st
          = (Inr v, st\<lparr>remote := c3, slept := slept st @ [1500, 3000],
                         requests := requests st + 3\<rparr>))
   \<and> (svc (remote st) ev = (Rejected e4, c4) \<and> error_status e4 = Some 404
        \<and> message e4 \<noteq> ''bad_json'' \<longrightarrow>
        classifyWithRetry svc clk ev 2 st
          = (fallbackClassification clk ev, st\<lparr>remote := c4, requests := requests st + 1\<rparr>))"
proof (intro conjI impI)
  assume "a \<le> m \<and> classifyEvent svc ev st = (Inl e, st1)"
  then show "classifyWithRetry_loop svc clk ev m a d st
        = (if a < m \<and> spec_retryable e
           then classifyWithRetry_loop svc clk ev m (a + 1) (d * 2) (sleep d st1)
           else (fallbackClassification clk ev, st1))"
    using loop_retry [of a m svc ev st e st1 clk d] loop_fallback [of a m svc ev st e st1 clk d]
    by auto
next
  assume c: "classifyEvent svc ev st = (Inl e, st1)"
  show "(requests st + 1 < requests (snd (classifyWithRetry svc clk ev 2 st))) = spec_retryable e"
  proof (cases "spec_retryable e")
    case True
    have eq: "classifyWithRetry svc clk ev 2 st
            = classifyWithRetry_loop svc clk ev 2 1 3000 (sleep 1500 st1)"
      using loop_retry [of 0 2 svc ev st e st1 clk 1500] c True
      by (simp add: classifyWithRetry_def)
    obtain k where "requests (snd (classifyWithRetry_loop svc clk ev 2 1 3000 (sleep 1500 st1)))
        = requests (sleep 1500 st1) + Suc k"
      using loop_backoff [of 1 2 svc clk ev 3000 "sleep 1500 st1"] by auto
    then show ?thesis
      using True eq classifyEvent_effects(2) [OF c] by (simp add: sleep_def)
  next
    case False
    have "classifyWithRetry svc clk ev 2 st = (fallbackClassification clk ev, st1)"
      using loop_fallback [of 0 2 svc ev st e st1 clk 1500] c False
      by (simp add: classifyWithRetry_def)
    then show ?thesis
      using False classifyEvent_effects(2) [OF c] by simp
  qed
next
  assume c: "classifyEvent svc ev st = (Inl e, st1)" and n: "\<not> spec_retryable e"
  show "classifyWithRetry svc clk ev 2 st = (fallbackClassification clk ev, st1)"
    using loop_fallback [of 0 2 svc ev st e st1 clk 1500] c n
    by (simp add: classifyWithRetry_def)
next
  obtain k where k: "int k \<le> 2 - 0"
    "slept (snd (classifyWithRetry_loop svc clk ev 2 0 1500 st)) = slept st @ backoff 1500 k"
    "requests (snd (classifyWithRetry_loop svc clk ev 2 0 1500 st)) = requests st + Suc k"
    using loop_backoff [of 0 2 svc clk ev 1500 st] by auto
  then show "\<exists>k\<le>2. slept (snd (classifyWithRetry svc clk ev 2 st)) = slept st @ backoff 1500 k
          \<and> requests (snd (classifyWithRetry svc clk ev 2 st)) = requests st + Suc k"
    by (intro exI [of _ k]) (simp add: classifyWithRetry_def)
next
  show "backoff 1500 2 = [1500, 3000]"
    by (simp add: numeral_2_eq_2)
next
  assume a: "svc (remote st) ev = (Rejected e1, c1) \<and> svc c1 ev = (Rejected e2, c2)
        \<and> svc c2 ev = (Responded (Some v), c3)
        \<and> error_status e1 = Some 429 \<and> error_status e2 = Some 429"
  define s1 where "s1 = st\<lparr>remote := c1, requests := requests st + 1\<rparr>"
  define s1' where "s1' = sleep 1500 s1"
  define s2 where "s2 = s1'\<lparr>remote := c2, requests := requests s1' + 1\<rparr>"
  define s2' where "s2' = sleep 3000 s2"
  define s3 where "s3 = s2'\<lparr>remote := c3, requests := requests s2' + 1\<rparr>"
  have r1: "spec_retryable e1" and r2: "spec_retryable e2"
    using a by (simp_all add: spec_retryable_def)
  have e1: "classifyEvent svc ev st = (Inl e1, s1)"
    using a by (simp add: classifyEvent_def s1_def)
  have e2: "classifyEvent svc ev s1' = (Inl e2, s2)"
    using a by (simp add: classifyEvent_def s2_def s1'_def s1_def sleep_def)
  have e3: "classifyEvent svc ev s2' = (Inr v, s3)"
    using a by (simp add: classifyEvent_def s3_def s2'_def s2_def sleep_def)
  have "classifyWithRetry svc clk ev 2 st = classifyWithRetry_loop svc clk ev 2 1 3000 s1'"
    using loop_retry [of 0 2 svc ev st e1 s1 clk 1500] e1 r1
    by (simp add: classifyWithRetry_def s1'_def)
  also have "\<dots> = classifyWithRetry_loop svc clk ev 2 2 6000 s2'"
    using loop_retry [of 1 2 svc ev s1' e2 s2 clk 3000] e2 r2
    by (simp add: s2'_def)
  also have "\<dots> = (Inr v, s3)"
    using loop_success [of 2 2 svc ev s2' v s3 clk 6000] e3 by simp
  finally show "classifyWithRetry svc clk ev 2 st
          = (Inr v, st\<lparr>remote := c3, slept := slept st @ [1500, 3000],
                         requests := requests st + 3\<rparr>)"
    by (simp add: s3_def s2'_def s2_def s1'_def s1_def sleep_def)
next
  assume a: "svc (remote st) ev = (Rejected e4, c4) \<and> error_status e4 = Some 404
        \<and> message e4 \<noteq> ''bad_json''"
  have n: "\<not> spec_retryable e4"
    using a by (simp add: spec_retryable_def)
  have e: "classifyEvent svc ev st = (Inl e4, st\<lparr>remote := c4, requests := requests st + 1\<rparr>)"
    using a by (simp add: classifyEvent_def)
  show "classifyWithRetry svc clk ev 2 st
          = (fallbackClassification clk ev, st\<lparr>remote := c4, requests := requests st + 1\<rparr>)"
    using loop_fallback [OF _ e, of 0 2 clk 1500] n
    by (simp add: classifyWithRetry_def)
qed

theorem C3_retry_policy_witness:
  "classifyEvent scripted (plain_event ''Talk'' ''sept 26'')
       (start [Rejected (failure 429), Rejected (failure 429),
               Responded (Some example_classification)])
     = (Inl (failure 429),
        (start [Rejected (failure 429), Responded (Some example_classification)])
          \<lparr>requests := 1\<rparr>)
   \<and> spec_retryable (failure 429)
   \<and> classifyWithRetry_loop scripted example_clock (plain_event ''Talk'' ''sept 26'') 2 0 1500
        (start [Rejected (failure 429), Rejected (failure 429),
                Responded (Some example_classification)])
       = classifyWithRetry_loop scripted example_clock (plain_event ''Talk'' ''sept 26'') 2 1 3000
           ((start [Rejected (failure 429), Responded (Some example_classification)])
              \<lparr>slept := [1500], requests := 1\<rparr>)
   \<and> 1 < requests (snd (classifyWithRetry scripted example_clock
             (plain_event ''Talk'' ''sept 26'') 2
             (start [Rejected (failure 429), Rejected (failure 429),
                     Responded (Some example_classification)])))
   \<and> classifyWithRetry scripted example_clock (plain_event ''Talk'' ''sept 26'') 2
        (start [Rejected (failure 429), Rejected (failure 429),
                Responded (Some example_classification)])
       = (Inr example_classification, (start [])\<lparr>slept := [1500, 3000], requests := 3\<rparr>)
   \<and> \<not> spec_retryable (failure 404)
   \<and> classifyWithRetry scripted example_clock (plain_event ''Talk'' ''sept 26'') 2 (start [])
       = (fallbackClassification example_clock (plain_event ''Talk'' ''sept 26''),
          (start [])\<lparr>requests := 1\<rparr>)"
proof -
  let ?ev = "plain_event ''Talk'' ''sept 26''"
  let ?s = "start [Rejected (failure 429), Rejected (failure 429),
                   Responded (Some example_classification)]"
  let ?s1 = "(start [Rejected (failure 429), Responded (Some example_classification)])
               \<lparr>requests := 1\<rparr>"
  have a: "classifyEvent scripted ?ev ?s = (Inl (failure 429), ?s1)"
    by (simp add: classifyEvent_def scripted_def start_def)
  have r: "spec_retryable (failure 429)" "\<not> spec_retryable (failure 404)"
    by (simp_all add: spec_retryable_def failure_def error_status_def)
  have b: "scripted (remote ?s) ?ev
        = (Rejected (failure 429), [Rejected (failure 429), Responded (Some example_classification)])
      \<and> scripted [Rejected (failure 429), Responded (Some example_classification)] ?ev
          = (Rejected (failure 429), [Responded (Some example_classification)])
      \<and> scripted [Responded (Some example_classification)] ?ev
          = (Responded (Some example_classification), [])
      \<and> error_status (failure 429) = Some 429 \<and> error_status (failure 429) = Some 429"
    by (simp add: scripted_def start_def error_status_def failure_def)
  have c: "scripted (remote (start [])) ?ev = (Rejected (failure 404), [])
      \<and> error_status (failure 404) = Some 404 \<and> message (failure 404) \<noteq> ''bad_json''"
    by (simp add: scripted_def start_def error_status_def failure_def)
  note t = C3_retry_policy [of 0 2 scripted ?ev ?s "failure 429" ?s1 example_clock 1500
      "failure 429" "[Rejected (failure 429), Responded (Some example_classification)]"
      "failure 429" "[Responded (Some example_classification)]" example_classification "[]"]
  have l: "classifyWithRetry_loop scripted example_clock ?ev 2 0 1500 ?s
       = classifyWithRetry_loop scripted example_clock ?ev 2 1 3000
           ((start [Rejected (failure 429), Responded (Some example_classification)])
              \<lparr>slept := [1500], requests := 1\<rparr>)"
    using t a r(1) by (simp add: sleep_def start_def)
  have q: "1 < requests (snd (classifyWithRetry scripted example_clock ?ev 2 ?s))"
    using t a r(1) by (simp add: start_def)
  have x: "classifyWithRetry scripted example_clock ?ev 2 ?s
       = (Inr example_classification, (start [])\<lparr>slept := [1500, 3000], requests := 3\<rparr>)"
    using t b by (simp add: start_def)
  have y: "classifyWithRetry scripted example_clock ?ev 2 (start [])
       = (fallbackClassification example_clock ?ev, (start [])\<lparr>requests := 1\<rparr>)"
    using c C3_retry_policy [of 0 2 scripted ?ev "start []" _ _ example_clock 1500 _ _ _ _ _ _
        "failure 404" "[]"]
    by (simp add: start_def)
  show ?thesis using a r l q x y by blast
qed

subsection \<open>C5: the schema of delivered classifications\<close>

text \<open>
  As the claim states it, every parsed remote response satisfies the schema. The source
  returns whatever \<open>JSON.parse\<close> yields: a response \<open>{}\<close> is delivered as the
  classification.
\<close>

theorem C5_counterexample:
  "classifyWithRetry scripted example_clock (plain_event ''Talk'' ''sept 26'') 2
     (start [Responded (Some (JObject []))])
     = (Inr (JObject []), (start [])\<lparr>requests := 1\<rparr>)
   \<and> \<not> conforms (JObject [])"
  by code_simp

text \<open>
  Claim C5, amended. Every classification that the heuristic fallback returns satisfies the
  schema (closed sets, size bounds, numeric range). A remote response is delivered as
  parsed, with no check. What the orchestrator returns is a parsed response of the service
  or the fallback result, so if every response of the service satisfies the schema, so
  does every value the orchestrator returns.
\<close>

theorem C5_schema_of_results:
  fixes svc :: "'c service"
  shows
  "(fallbackClassification clk ev = Inr c \<longrightarrow> conforms c)
   \<and> (svc (remote st) ev = (Responded (Some v), c') \<longrightarrow>
        classifyEvent svc ev st = (Inr v, st\<lparr>remote := c', requests := requests st + 1\<rparr>))
   \<and> (0 \<le> m \<and> fst (classifyWithRetry svc clk ev m st) = Inr w \<longrightarrow>
        (\<exists>s s'. svc s ev = (Responded (Some w), s')) \<or> fallbackClassification clk ev = Inr w)
   \<and> ((\<forall>s x s'. svc s ev = (Responded (Some x), s') \<longrightarrow> conforms x) \<and> 0 \<le> m
        \<and> fst (classifyWithRetry svc clk ev m st) = Inr w \<longrightarrow> conforms w)"
proof (intro conjI impI)
  assume "fallbackClassification clk ev = Inr c"
  then show "conforms c" by (rule fallback_conforms)
next
  assume "svc (remote st) ev = (Responded (Some v), c')"
  then show "classifyEvent svc ev st = (Inr v, st\<lparr>remote := c', requests := requests st + 1\<rparr>)"
    by (simp add: classifyEvent_def)
next
  assume "0 \<le> m \<and> fst (classifyWithRetry svc clk ev m st) = Inr w"
  then show "(\<exists>s s'. svc s ev = (Responded (Some w), s')) \<or> fallbackClassification clk ev = Inr w"
    using loop_origin [of 0 m svc clk ev 1500 st w] by (simp add: classifyWithRetry_def)
next
  assume a: "(\<forall>s x s'. svc s ev = (Responded (Some x), s') \<longrightarrow> conforms x) \<and> 0 \<le> m
        \<and> fst (classifyWithRetry svc clk ev m st) = Inr w"
  then have "(\<exists>s s'. svc s ev = (Responded (Some w), s')) \<or> fallbackClassification clk ev = Inr w"
    using loop_origin [of 0 m svc clk ev 1500 st w] by (simp add: classifyWithRetry_def)
  then show "conforms w"
    using a fallback_conforms by blast
qed

theorem C5_schema_of_results_witness:
  "(\<exists>c. fallbackClassification example_clock (plain_event ''Talk'' ''sept 26'') = Inr c \<and> conforms c)
   \<and> classifyEvent (constant_service example_classification) (plain_event ''Talk'' ''sept 26'') (start ())
       = (Inr example_classification, (start ())\<lparr>requests := 1\<rparr>)
   \<and> fst (classifyWithRetry (constant_service example_classification) example_clock
            (plain_event ''Talk'' ''sept 26'') 2 (start ())) = Inr example_classification
   \<and> conforms example_classification"
proof -
  let ?ev = "plain_event ''Talk'' ''sept 26''"
  let ?svc = "constant_service example_classification"
  have d: "toISOString example_clock (parseCampusDate example_clock ''sept 26'')
             = Inr ''2026-09-26T16:00:00.000Z''"
    by code_simp
  obtain c where c: "fallbackClassification example_clock ?ev = Inr c"
    using d by (simp add: fallbackClassification_def Let_def plain_event_def)
  have k: "conforms example_classification"
    by (simp add: example_classification_def conforms_def prop_ok_def schema_required_def
      string_in_def schema_categories_def array_of_def is_string_def schema_audiences_def
      schema_location_types_def number_in_def)
  have h: "\<forall>s x s'. ?svc s ?ev = (Responded (Some x), s') \<longrightarrow> conforms x"
    using k by (simp add: constant_service_def)
  have s: "?svc (remote (start ())) ?ev = (Responded (Some example_classification), ())"
    by (simp add: constant_service_def)
  have e: "classifyEvent ?svc ?ev (start ()) = (Inr example_classification, (start ())\<lparr>requests := 1\<rparr>)"
    using s C5_schema_of_results [of example_clock ?ev c ?svc "start ()" example_classification "()" 2 example_classification]
    by (simp add: start_def)
  have r: "fst (classifyWithRetry ?svc example_clock ?ev 2 (start ())) = Inr example_classification"
    using loop_success [OF _ e, of 0 2 example_clock 1500] by (simp add: classifyWithRetry_def)
  have "conforms c"
    using c C5_schema_of_results [of example_clock ?ev c ?svc "start ()" example_classification "()" 2 example_classification]
    by blast
  moreover have "conforms example_classification"
    using h r C5_schema_of_results [of example_clock ?ev c ?svc "start ()" example_classification "()" 2 example_classification]
    by simp
  ultimately show ?thesis using c e h r by blast
qed

subsection \<open>C4: the output of a successful batch\<close>

text \<open>
  As the claim states it, the output has length \<open>min(input length, cap)\<close> for every
  configured cap. With \<open>MAX_EVENTS=-1\<close> the source processes \<open>rawEvents.slice(0, -1)\<close>,
  all rows but the last: two of three.
\<close>

theorem C4_counterexample:
  "max_events (example_env None (Some ''-1'')) (length three_rows) = Num (- 1)
   \<and> code (fst (refresh scripted example_clock (example_env None (Some ''-1'')) None
                  (Inr (Some three_rows)) answering)) = 200
   \<and> length (cachedEvents (snd (refresh scripted example_clock (example_env None (Some ''-1''))
                  None (Inr (Some three_rows)) answering))) = 2
   \<and> int 2 \<noteq> min (int (length three_rows)) (- 1)"
  by code_simp

text \<open>
  Claim C4, amended. After a successful refresh the cache is the new batch: one classified
  event per processed row, in input order, each the row's event with a classification that
  the orchestrator returned for it, and the response counts them. The processed rows are
  \<open>rawEvents.slice(0, max)\<close>: for a cap that is a natural number \<open>cap\<close> the output has
  length \<open>min(input length, cap)\<close> and holds the first \<open>cap\<close> events; with no cap set it
  holds all of them.
\<close>

theorem C4_batch_output:
  fixes svc :: "'c service"
  assumes "refresh svc clk env token (Inr values) st = (resp, st')" and "code resp = 200"
  shows "list_all2 (produced_by svc clk) (cachedEvents st')
           (slice0 (map rowToEvent (sheet_rows values))
              (max_events env (length (sheet_rows values))))
     \<and> body resp = JObject [(''ok'', JBool True),
                             (''count'', JNumber (real (length (cachedEvents st'))))]
     \<and> (max_events env (length (sheet_rows values)) = Num (int cap) \<longrightarrow>
          length (cachedEvents st') = min (length (sheet_rows values)) cap
          \<and> map event (cachedEvents st') = take cap (map rowToEvent (sheet_rows values)))
     \<and> (MAX_EVENTS env = None \<longrightarrow>
          map event (cachedEvents st') = map rowToEvent (sheet_rows values))"
proof -
  let ?evs = "slice0 (map rowToEvent (sheet_rows values))
                (max_events env (length (sheet_rows values)))"
  have s: "list_all2 (produced_by svc clk) (cachedEvents st') ?evs"
    and b: "body resp = JObject [(''ok'', JBool True),
                             (''count'', JNumber (real (length (cachedEvents st'))))]"
    using refresh_success [OF assms] by simp_all
  have ev: "map event (cachedEvents st') = ?evs"
    using s by (induction rule: list_all2_induct) (simp_all add: produced_by_def)
  have c: "length (cachedEvents st') = min (length (sheet_rows values)) cap
          \<and> map event (cachedEvents st') = take cap (map rowToEvent (sheet_rows values))"
    if "max_events env (length (sheet_rows values)) = Num (int cap)"
  proof -
    have "map event (cachedEvents st') = take cap (map rowToEvent (sheet_rows values))"
      using ev that by (simp add: slice0_nat)
    moreover from this have "length (map event (cachedEvents st'))
        = length (take cap (map rowToEvent (sheet_rows values)))"
      by (rule arg_cong)
    then have "length (cachedEvents st') = min (length (sheet_rows values)) cap"
      by simp
    ultimately show ?thesis by simp
  qed
  have d: "map event (cachedEvents st') = map rowToEvent (sheet_rows values)"
    if "MAX_EVENTS env = None"
    using ev that by (simp add: max_events_def slice0_nat)
  show ?thesis using s b c d by blast
qed

theorem C4_batch_output_witness:
  "code (fst (refresh scripted example_clock (example_env None (Some ''2'')) None
                  (Inr (Some three_rows)) answering)) = 200
   \<and> max_events (example_env None (Some ''2'')) (length (sheet_rows (Some three_rows)))
       = Num (int 2)
   \<and> length (cachedEvents (snd (refresh scripted example_clock (example_env None (Some ''2''))
                  None (Inr (Some three_rows)) answering))) = min (length three_rows) 2
   \<and> map event (cachedEvents (snd (refresh scripted example_clock
          (example_env None (Some ''2'')) None (Inr (Some three_rows)) answering)))
       = take 2 (map rowToEvent three_rows)
   \<and> code (fst (refresh scripted example_clock (example_env None None) None
                  (Inr (Some three_rows)) answering)) = 200
   \<and> MAX_EVENTS (example_env None None) = None
   \<and> map event (cachedEvents (snd (refresh scripted example_clock
          (example_env None None) None (Inr (Some three_rows)) answering)))
       = map rowToEvent three_rows"
proof -
  let ?r2 = "refresh scripted example_clock (example_env None (Some ''2'')) None
               (Inr (Some three_rows)) answering"
  let ?r0 = "refresh scripted example_clock (example_env None None) None
               (Inr (Some three_rows)) answering"
  have a2: "?r2 = (fst ?r2, snd ?r2)" and a0: "?r0 = (fst ?r0, snd ?r0)"
    by simp_all
  have b2: "code (fst ?r2) = 200" by code_simp
  have b0: "code (fst ?r0) = 200" by code_simp
  have m: "max_events (example_env None (Some ''2'')) (length (sheet_rows (Some three_rows)))
       = Num (int 2)"
    by (simp add: max_events_def example_env_def)
  have n: "MAX_EVENTS (example_env None None) = None"
    by (simp add: example_env_def)
  have s: "sheet_rows (Some three_rows) = three_rows"
    by (simp add: sheet_rows_def)
  note t2 = C4_batch_output [OF a2 b2, of 2]
  note t0 = C4_batch_output [OF a0 b0, of 0]
  have "length (cachedEvents (snd ?r2)) = min (length three_rows) 2"
    "map event (cachedEvents (snd ?r2)) = take 2 (map rowToEvent three_rows)"
    using t2 m s by simp_all
  moreover have "map event (cachedEvents (snd ?r0)) = map rowToEvent three_rows"
    using t0 n s by simp
  ultimately show ?thesis using b2 b0 m n by blast
qed

subsection \<open>C6: failure paths of the refresh route\<close>

text \<open>
  Claim C6. Whenever \<open>POST /api/refresh\<close> does not answer 200, the cache is unchanged. A
  token that differs from a configured secret yields 401 with
  \<open>{ok: false, error: "unauthorized"}\<close> and leaves the whole state as it was. A failure of
  the read of the sheet yields 500 with the message of the failure (\<open>"unknown_error"\<close>
  when it has none), and the cache is preserved.
\<close>

theorem C6_failure_keeps_cache:
  fixes svc :: "'c service"
  shows
  "(code (fst (refresh svc clk env token sheet st)) \<noteq> 200 \<longrightarrow>
      cachedEvents (snd (refresh svc clk env token sheet st)) = cachedEvents st)
   \<and> (REFRESH_TOKEN env = Some secret \<and> secret \<noteq> [] \<and> token \<noteq> Some secret \<longrightarrow>
        refresh svc clk env token sheet st
          = (\<lparr>code = 401,
              body = JObject [(''ok'', JBool False), (''error'', JString ''unauthorized'')]\<rparr>,
             st))
   \<and> (\<not> token_mismatch env token \<longrightarrow>
        refresh svc clk env token (Inl e) st
          = (\<lparr>code = 500,
              body = JObject [(''ok'', JBool False),
                              (''error'', JString (if message e \<noteq> [] then message e
                                                   else ''unknown_error''))]\<rparr>,
             st\<lparr>sheet_reads := sheet_reads st + 1\<rparr>))"
proof (intro conjI impI)
  assume "code (fst (refresh svc clk env token sheet st)) \<noteq> 200"
  then show "cachedEvents (snd (refresh svc clk env token sheet st)) = cachedEvents st"
    by (rule refresh_failure_cache)
next
  assume "REFRESH_TOKEN env = Some secret \<and> secret \<noteq> [] \<and> token \<noteq> Some secret"
  then have "token_mismatch env token" by (simp add: token_mismatch_def)
  then show "refresh svc clk env token sheet st
          = (\<lparr>code = 401,
              body = JObject [(''ok'', JBool False), (''error'', JString ''unauthorized'')]\<rparr>,
             st)"
    by (simp add: refresh_def unauthorized_def)
next
  assume "\<not> token_mismatch env token"
  then show "refresh svc clk env token (Inl e) st
          = (\<lparr>code = 500,
              body = JObject [(''ok'', JBool False),
                              (''error'', JString (if message e \<noteq> [] then message e
                                                   else ''unknown_error''))]\<rparr>,
             st\<lparr>sheet_reads := sheet_reads st + 1\<rparr>)"
    by (simp add: refresh_def Let_def error_response_def)
qed

theorem C6_failure_keeps_cache_witness:
  "code (fst (refresh scripted example_clock (example_env (Some ''s3cret'') None) (Some ''guess'')
                (Inr (Some three_rows)) answering)) \<noteq> 200
   \<and> refresh scripted example_clock (example_env (Some ''s3cret'') None) (Some ''guess'')
        (Inr (Some three_rows)) answering
       = (\<lparr>code = 401,
           body = JObject [(''ok'', JBool False), (''error'', JString ''unauthorized'')]\<rparr>,
          answering)
   \<and> cachedEvents (snd (refresh scripted example_clock (example_env (Some ''s3cret'') None)
        (Some ''guess'') (Inr (Some three_rows)) answering)) = cachedEvents answering
   \<and> \<not> token_mismatch (example_env (Some ''s3cret'') None) (Some ''s3cret'')
   \<and> refresh scripted example_clock (example_env (Some ''s3cret'') None) (Some ''s3cret'')
        (Inl (failure 403)) answering
       = (\<lparr>code = 500,
           body = JObject [(''ok'', JBool False), (''error'', JString ''request failed'')]\<rparr>,
          answering\<lparr>sheet_reads := sheet_reads answering + 1\<rparr>)"
proof -
  let ?env = "example_env (Some ''s3cret'') None"
  let ?r = "refresh scripted example_clock ?env (Some ''guess'') (Inr (Some three_rows)) answering"
  have a: "REFRESH_TOKEN ?env = Some ''s3cret'' \<and> ''s3cret'' \<noteq> [] \<and> Some ''guess'' \<noteq> Some ''s3cret''"
    by (simp add: example_env_def)
  have b: "\<not> token_mismatch ?env (Some ''s3cret'')"
    by (simp add: token_mismatch_def example_env_def)
  note t = C6_failure_keeps_cache [of scripted example_clock ?env "Some ''guess''"
      "Inr (Some three_rows)" answering "''s3cret''"]
  have r: "?r = (\<lparr>code = 401,
           body = JObject [(''ok'', JBool False), (''error'', JString ''unauthorized'')]\<rparr>,
          answering)"
    using t a by blast
  then have c: "code (fst ?r) \<noteq> 200" by simp
  have k: "cachedEvents (snd ?r) = cachedEvents answering"
    using t c by blast
  have m: "message (failure 403) = ''request failed''" by (simp add: failure_def)
  have e: "refresh scripted example_clock ?env (Some ''s3cret'') (Inl (failure 403)) answering
       = (\<lparr>code = 500,
           body = JObject [(''ok'', JBool False), (''error'', JString ''request failed'')]\<rparr>,
          answering\<lparr>sheet_reads := sheet_reads answering + 1\<rparr>)"
    using b m C6_failure_keeps_cache [of scripted example_clock ?env "Some ''s3cret''"
      "Inr (Some three_rows)" answering "''s3cret''" "failure 403"]
    by simp
  show ?thesis using c r k b e by blast
qed

subsection \<open>C10: a cap that is not a number\<close>

text \<open>
  Claim C10. If \<open>MAX_EVENTS\<close> is a non-empty string for which \<open>Number\<close> gives \<open>NaN\<close>, a
  refresh whose token check and read of the sheet succeed classifies no row, replaces the
  cache with the empty list and answers \<open>{ok: true, count: 0}\<close>, whatever rows the sheet
  returned.
\<close>

theorem C10_unparseable_cap:
  fixes svc :: "'c service"
  assumes "\<not> token_mismatch env token" and "MAX_EVENTS env = Some s" and "s \<noteq> []"
    and "Number_of env s = NaN"
  shows "refresh svc clk env token (Inr values) st
    = (\<lparr>code = 200, body = JObject [(''ok'', JBool True), (''count'', JNumber 0)]\<rparr>,
       st\<lparr>cachedEvents := [], sheet_reads := sheet_reads st + 1\<rparr>)"
  using assms by (simp add: refresh_def Let_def max_events_def slice0_def)

theorem C10_unparseable_cap_witness:
  "\<not> token_mismatch (example_env None (Some ''many'')) None
   \<and> MAX_EVENTS (example_env None (Some ''many'')) = Some ''many''
   \<and> ''many'' \<noteq> []
   \<and> Number_of (example_env None (Some ''many'')) ''many'' = NaN
   \<and> refresh scripted example_clock (example_env None (Some ''many'')) None
        (Inr (Some three_rows)) answering
      = (\<lparr>code = 200, body = JObject [(''ok'', JBool True), (''count'', JNumber 0)]\<rparr>,
         answering\<lparr>cachedEvents := [], sheet_reads := sheet_reads answering + 1\<rparr>)"
proof -
  let ?env = "example_env None (Some ''many'')"
  have a: "\<not> token_mismatch ?env None"
    by (simp add: token_mismatch_def example_env_def)
  have b: "MAX_EVENTS ?env = Some ''many''" by (simp add: example_env_def)
  have c: "''many'' \<noteq> []" by simp
  have d: "Number_of ?env ''many'' = NaN" by (simp add: example_env_def)
  show ?thesis
    using a b c d C10_unparseable_cap [OF a b c d, of scripted example_clock "Some three_rows" answering]
    by blast
qed

end
